theory Spec2Isabelle
  imports Main "HOL-Library.Sublist"
begin

section \<open>JavaScript strings\<close>

text \<open>
  The converter (html-to-react.js) works on JavaScript strings. They are modelled as
  lists of characters; the model is exact for ASCII text. Case conversion leaves every
  character outside A-Z / a-z unchanged, and white space is the ASCII part of what
  \<^verbatim>\<open>String.prototype.trim\<close> and the regular expression class \<^verbatim>\<open>\s\<close> accept
  (TAB, LF, VT, FF, CR, SPACE).
\<close>

definition upper_letters :: string where
  "upper_letters = ''ABCDEFGHIJKLMNOPQRSTUVWXYZ''"

definition lower_letters :: string where
  "lower_letters = ''abcdefghijklmnopqrstuvwxyz''"

definition digit_chars :: string where
  "digit_chars = ''0123456789''"

definition dquote :: char where
  "dquote = CHR 0x22"

definition backslash :: char where
  "backslash = CHR 0x5C"

definition newline :: char where
  "newline = CHR 0x0A"

definition toLowerChar :: "char \<Rightarrow> char" where
  "toLowerChar c = (case map_of (zip upper_letters lower_letters) c of None \<Rightarrow> c | Some d \<Rightarrow> d)"

definition toUpperChar :: "char \<Rightarrow> char" where
  "toUpperChar c = (case map_of (zip lower_letters upper_letters) c of None \<Rightarrow> c | Some d \<Rightarrow> d)"

definition toLowerCase :: "string \<Rightarrow> string" where
  "toLowerCase s = map toLowerChar s"

definition is_lower :: "char \<Rightarrow> bool" where
  "is_lower c = (c \<in> set lower_letters)"

definition is_digit :: "char \<Rightarrow> bool" where
  "is_digit c = (c \<in> set digit_chars)"

definition is_alnum :: "char \<Rightarrow> bool" where
  "is_alnum c = (c \<in> set (lower_letters @ upper_letters @ digit_chars))"

definition is_space :: "char \<Rightarrow> bool" where
  "is_space c = (c \<in> set [CHR 0x09, CHR 0x0A, CHR 0x0B, CHR 0x0C, CHR 0x0D, CHR 0x20])"

text \<open>\<^verbatim>\<open>s.trim()\<close>\<close>

definition trim :: "string \<Rightarrow> string" where
  "trim s = rev (dropWhile is_space (rev (dropWhile is_space s)))"

text \<open>
  \<^verbatim>\<open>s.split(sep)\<close> for a one-character separator: the result always has at least one
  element, and the empty string splits into one empty piece.
\<close>

fun split_on :: "char \<Rightarrow> string \<Rightarrow> string list" where
  "split_on sep [] = [[]]"
| "split_on sep (c # cs) =
     (if c = sep then [] # split_on sep cs
      else (case split_on sep cs of [] \<Rightarrow> [[c]] | w # ws \<Rightarrow> (c # w) # ws))"

text \<open>\<^verbatim>\<open>xs.join(sep)\<close>\<close>

fun join :: "string \<Rightarrow> string list \<Rightarrow> string" where
  "join sep [] = []"
| "join sep [x] = x"
| "join sep (x # y # ys) = x @ sep @ join sep (y # ys)"

text \<open>\<^verbatim>\<open>s.includes(t)\<close>, and \<^verbatim>\<open>s.startsWith(t)\<close> is \<^const>\<open>prefix\<close>.\<close>

fun str_includes :: "string \<Rightarrow> string \<Rightarrow> bool" where
  "str_includes [] t = (t = [])"
| "str_includes (c # cs) t = (if prefix t (c # cs) then True else str_includes cs t)"

text \<open>\<^verbatim>\<open>'  '.repeat(n)\<close>\<close>

definition repeat_str :: "string \<Rightarrow> nat \<Rightarrow> string" where
  "repeat_str s n = concat (replicate n s)"

text \<open>A string between double quotes, as the template \<^verbatim>\<open>`"${value}"`\<close> writes it.\<close>

definition quoted :: "string \<Rightarrow> string" where
  "quoted s = dquote # s @ [dquote]"

text \<open>Decimal rendering of a natural number, as a template literal prints a counter.\<close>

definition digit_char :: "nat \<Rightarrow> char" where
  "digit_char d = digit_chars ! d"

function show_nat :: "nat \<Rightarrow> string" where
  "show_nat n = (if n < 10 then [digit_char n] else show_nat (n div 10) @ [digit_char (n mod 10)])"
  by pat_completeness auto
termination
  by (relation "measure id") auto

declare show_nat.simps [simp del]

definition show_int :: "int \<Rightarrow> string" where
  "show_int i = (if i < 0 then CHR ''-'' # show_nat (nat (- i)) else show_nat (nat i))"

section \<open>Plain objects used as maps\<close>

text \<open>
  A JavaScript object keeps its own string keys in insertion order, except that keys
  that are canonical array indices (decimal numerals of 0 .. 2^32 - 2 without leading
  zeros) come first, in ascending numeric order. An object is modelled as the list of
  its own properties in that order.
\<close>

type_synonym 'v js_object = "(string \<times> 'v) list"

definition digit_val :: "char \<Rightarrow> nat" where
  "digit_val c = (case map_of (zip digit_chars [0, 1, 2, 3, 4, 5, 6, 7, 8, 9]) c of None \<Rightarrow> 0 | Some d \<Rightarrow> d)"

definition digits_value :: "string \<Rightarrow> nat" where
  "digits_value k = foldl (\<lambda>n c. 10 * n + digit_val c) 0 k"

definition is_array_index :: "string \<Rightarrow> bool" where
  "is_array_index k =
     (if k = [] then False
      else if \<not> list_all is_digit k then False
      else if hd k = CHR ''0'' then k = ''0''
      else digits_value k \<le> 4294967294)"

fun insert_index :: "nat \<Rightarrow> string \<Rightarrow> 'v \<Rightarrow> 'v js_object \<Rightarrow> 'v js_object" where
  "insert_index n k v [] = [(k, v)]"
| "insert_index n k v ((k', v') # rest) =
     (if is_array_index k' \<and> digits_value k' < n then (k', v') # insert_index n k v rest
      else (k, v) # (k', v') # rest)"

fun replace_value :: "string \<Rightarrow> 'v \<Rightarrow> 'v js_object \<Rightarrow> 'v js_object" where
  "replace_value k v [] = []"
| "replace_value k v ((k', v') # rest) =
     (if k' = k then (k', v) # rest else (k', v') # replace_value k v rest)"

text \<open>
  \<^verbatim>\<open>obj[k] = v\<close> for a string \<open>v\<close> on an object literal. Assigning a primitive to
  \<^verbatim>\<open>__proto__\<close> goes to the setter inherited from \<^verbatim>\<open>Object.prototype\<close>, which
  ignores it, so no own property is created.
\<close>

definition obj_set :: "string js_object \<Rightarrow> string \<Rightarrow> string \<Rightarrow> string js_object" where
  "obj_set obj k v =
     (if k = ''__proto__'' then obj
      else if map_of obj k \<noteq> None then replace_value k v obj
      else if is_array_index k then insert_index (digits_value k) k v obj
      else obj @ [(k, v)])"

text \<open>
  \<^verbatim>\<open>MAP[k]\<close> read on an object literal falls back to \<^verbatim>\<open>Object.prototype\<close> for a key
  the literal does not own. The converter only reads with lower-cased keys, and the
  only all-lower-case names on \<^verbatim>\<open>Object.prototype\<close> are \<^verbatim>\<open>constructor\<close> (the
  function \<^verbatim>\<open>Object\<close>) and \<^verbatim>\<open>__proto__\<close> (the prototype object). Both are truthy
  non-strings; they are represented by the text a template literal prints for them.
\<close>

datatype js_value = JSString string | JSInherited string

definition Object_prototype :: "string \<Rightarrow> js_value option" where
  "Object_prototype k =
     (if k = ''constructor'' then Some (JSInherited ''function Object() { [native code] }'')
      else if k = ''__proto__'' then Some (JSInherited ''[object Object]'')
      else None)"

definition obj_get :: "(string \<times> string) list \<Rightarrow> string \<Rightarrow> js_value option" where
  "obj_get literal k = (case map_of literal k of Some v \<Rightarrow> Some (JSString v) | None \<Rightarrow> Object_prototype k)"

text \<open>What \<^verbatim>\<open>`${v}`\<close> and \<^verbatim>\<open>Array.prototype.join\<close> print for a value.\<close>

fun to_text :: "js_value \<Rightarrow> string" where
  "to_text (JSString s) = s"
| "to_text (JSInherited s) = s"

section \<open>Style Parser\<close>

text \<open>
  The replacement \<^verbatim>\<open>property.replace(/-([a-z])/g, (_, letter) => letter.toUpperCase())\<close>:
  scanning from the left, a hyphen followed by a lower-case letter becomes that letter in
  upper case.
\<close>

fun camelCase :: "string \<Rightarrow> string" where
  "camelCase (c # d # cs) =
     (if c = CHR ''-'' \<and> is_lower d then toUpperChar d # camelCase cs else c # camelCase (d # cs))"
| "camelCase cs = cs"

text \<open>
  The loop of \<^verbatim>\<open>parseStyleString\<close>: each rule is split at every colon, the pieces are
  trimmed, and only the first two are read (\<^verbatim>\<open>const [property, value] = ...\<close>).
\<close>

fun parseRules :: "string list \<Rightarrow> string js_object \<Rightarrow> string js_object" where
  "parseRules [] styleObj = styleObj"
| "parseRules (rule # rules) styleObj =
     (case map trim (split_on CHR 0x3A rule) of
        property # val # _ \<Rightarrow>
          if property \<noteq> [] \<and> val \<noteq> []
          then parseRules rules (obj_set styleObj (camelCase property) val)
          else parseRules rules styleObj
      | _ \<Rightarrow> parseRules rules styleObj)"

definition parseStyleString :: "string \<Rightarrow> string js_object option" where
  "parseStyleString styleStr =
     (if styleStr = [] then None
      else let rules = filter (\<lambda>r. r \<noteq> []) (split_on CHR 0x3B styleStr);
               styleObj = parseRules rules []
           in if styleObj \<noteq> [] then Some styleObj else None)"

text \<open>
  \<^verbatim>\<open>formatStyleObject\<close>: a number is printed as it is, any other value between double
  quotes. Numbers are modelled as integers (below 10^21, where JavaScript prints plain
  decimals).
\<close>

datatype style_value = StrV string | NumV int

definition formatStyleObject :: "style_value js_object option \<Rightarrow> string option" where
  "formatStyleObject styleObj =
     (case styleObj of
        None \<Rightarrow> None
      | Some obj \<Rightarrow>
          Some (''{{ '' @
                join '', '' (map (\<lambda>(key, v). key @ '': '' @
                                  (case v of NumV n \<Rightarrow> show_int n | StrV s \<Rightarrow> quoted s)) obj) @
                '' }}''))"

section \<open>JSON text of a style object\<close>

text \<open>
  \<^verbatim>\<open>JSON.stringify\<close> on an object whose values are strings: keys and values are quoted;
  inside the quotes the double quote and the backslash are escaped, the control
  characters BS, TAB, LF, FF and CR get their short escapes and every other character
  below 0x20 is written as \<^verbatim>\<open>\u00XX\<close> with lower-case hexadecimal digits.
\<close>

definition hex_digit :: "nat \<Rightarrow> char" where
  "hex_digit d = ''0123456789abcdef'' ! d"

definition json_escape :: "char \<Rightarrow> string" where
  "json_escape c =
     (if c = dquote then [backslash, dquote]
      else if c = backslash then [backslash, backslash]
      else if c = CHR 0x08 then [backslash, CHR ''b'']
      else if c = CHR 0x09 then [backslash, CHR ''t'']
      else if c = CHR 0x0A then [backslash, CHR ''n'']
      else if c = CHR 0x0C then [backslash, CHR ''f'']
      else if c = CHR 0x0D then [backslash, CHR ''r'']
      else if (of_char c :: nat) < 32
        then [backslash, CHR ''u'', CHR ''0'', CHR ''0'',
              hex_digit ((of_char c :: nat) div 16), hex_digit ((of_char c :: nat) mod 16)]
      else [c])"

definition json_string :: "string \<Rightarrow> string" where
  "json_string s = dquote # concat (map json_escape s) @ [dquote]"

definition JSON_stringify :: "string js_object \<Rightarrow> string" where
  "JSON_stringify obj =
     ''{'' @ join '','' (map (\<lambda>(k, v). json_string k @ '':'' @ json_string v) obj) @ ''}''"

section \<open>The document\<close>

text \<open>
  The document comes from jsdom. A node is an element (with its namespace, its
  \<^verbatim>\<open>tagName\<close>, its attributes in order and its child nodes), a text node, a comment, or
  a node of another type (a doctype or a processing instruction, which carry no text
  content for their parent). HTML elements have a string \<^verbatim>\<open>className\<close>; for an SVG
  element \<^verbatim>\<open>className\<close> is an \<^verbatim>\<open>SVGAnimatedString\<close> object, which is why the
  converter tests \<^verbatim>\<open>typeof className === 'string'\<close>.
\<close>

datatype namespace = HTML | SVG

datatype node =
    Element namespace string "(string \<times> string) list" "node list"
  | Text string
  | Comment string
  | OtherNode

type_synonym document = "node list"

text \<open>\<^verbatim>\<open>el.getAttribute(name)\<close>: the value, or null.\<close>

fun getAttribute :: "node \<Rightarrow> string \<Rightarrow> string option" where
  "getAttribute (Element ns t attrs cs) name = map_of attrs name"
| "getAttribute _ name = None"

text \<open>\<^verbatim>\<open>el.id\<close>: the \<^verbatim>\<open>id\<close> attribute, or the empty string.\<close>

definition element_id :: "node \<Rightarrow> string" where
  "element_id el = (case getAttribute el ''id'' of None \<Rightarrow> [] | Some v \<Rightarrow> v)"

text \<open>
  \<^verbatim>\<open>el.className\<close>: \<open>Some\<close> of the \<^verbatim>\<open>class\<close> attribute (or of the empty string) when
  it is a string, \<open>None\<close> when it is the object of an SVG element.
\<close>

fun element_className :: "node \<Rightarrow> string option" where
  "element_className (Element HTML t attrs cs) =
     Some (case map_of attrs ''class'' of None \<Rightarrow> [] | Some v \<Rightarrow> v)"
| "element_className _ = None"

text \<open>\<^verbatim>\<open>el.tagName.toLowerCase()\<close>\<close>

fun lower_tagName :: "node \<Rightarrow> string" where
  "lower_tagName (Element ns t attrs cs) = toLowerCase t"
| "lower_tagName _ = []"

text \<open>
  \<^verbatim>\<open>element.textContent\<close> of an element: the data of all text nodes below it in
  document order (comments do not count). For a text node or a comment, whose
  \<^verbatim>\<open>textContent\<close> is its data, the converter's branches read the data directly.
\<close>

fun descendant_text :: "node \<Rightarrow> string" where
  "descendant_text (Element ns t attrs cs) = concat (map descendant_text cs)"
| "descendant_text (Text s) = s"
| "descendant_text (Comment s) = []"
| "descendant_text OtherNode = []"

fun is_element :: "node \<Rightarrow> bool" where
  "is_element (Element ns t attrs cs) = True"
| "is_element _ = False"

section \<open>Markup to JSX\<close>

definition JSX_ATTR_MAP :: "(string \<times> string) list" where
  "JSX_ATTR_MAP =
     [(''class'', ''className''),
      (''for'', ''htmlFor''),
      (''tabindex'', ''tabIndex''),
      (''readonly'', ''readOnly''),
      (''maxlength'', ''maxLength''),
      (''minlength'', ''minLength''),
      (''cellpadding'', ''cellPadding''),
      (''cellspacing'', ''cellSpacing''),
      (''rowspan'', ''rowSpan''),
      (''colspan'', ''colSpan''),
      (''usemap'', ''useMap''),
      (''frameborder'', ''frameBorder''),
      (''contenteditable'', ''contentEditable''),
      (''crossorigin'', ''crossOrigin''),
      (''datetime'', ''dateTime''),
      (''enctype'', ''encType''),
      (''formaction'', ''formAction''),
      (''formenctype'', ''formEncType''),
      (''formmethod'', ''formMethod''),
      (''formnovalidate'', ''formNoValidate''),
      (''formtarget'', ''formTarget''),
      (''hreflang'', ''hrefLang''),
      (''inputmode'', ''inputMode''),
      (''srcdoc'', ''srcDoc''),
      (''srcset'', ''srcSet''),
      (''autocomplete'', ''autoComplete''),
      (''autofocus'', ''autoFocus''),
      (''autoplay'', ''autoPlay'')]"

definition SELF_CLOSING_TAGS :: "string list" where
  "SELF_CLOSING_TAGS =
     [''area'', ''base'', ''br'', ''col'', ''embed'', ''hr'', ''img'', ''input'',
      ''link'', ''meta'', ''param'', ''source'', ''track'', ''wbr'']"

definition SKIP_TAGS :: "string list" where
  "SKIP_TAGS = [''script'', ''style'', ''noscript'', ''link'', ''meta'']"

record options =
  preserveComments :: bool
  generateTypeScript :: bool
  componentPrefix :: string
  wrapWithFragment :: bool
  extractComponents :: bool
  minComponentDepth :: nat

definition default_options :: options where
  "default_options =
     \<lparr>preserveComments = False, generateTypeScript = True, componentPrefix = [],
      wrapWithFragment = True, extractComponents = True, minComponentDepth = 2\<rparr>"

text \<open>
  \<^verbatim>\<open>buildAttributes\<close>, as a function of the element's attribute list. The name after
  translation is \<^verbatim>\<open>JSX_ATTR_MAP[name] || name\<close>; when the read falls through to
  \<^verbatim>\<open>Object.prototype\<close> the name is no string any more, so it equals neither
  \<^verbatim>\<open>'style'\<close>, \<^verbatim>\<open>'className'\<close> nor the value. The array that is returned is
  only ever joined into the tag, so each entry is kept as the text it prints.
\<close>

definition jsx_name :: "string \<Rightarrow> js_value" where
  "jsx_name name = (case obj_get JSX_ATTR_MAP name of Some v \<Rightarrow> v | None \<Rightarrow> JSString name)"

fun buildAttributes :: "(string \<times> string) list \<Rightarrow> string list" where
  "buildAttributes [] = []"
| "buildAttributes ((attr_name, attr_value) # rest) =
     (let name0 = toLowerCase attr_name in
      if prefix ''on'' name0 then buildAttributes rest
      else if prefix ''data-react'' name0 \<or> prefix ''data-v-'' name0 then buildAttributes rest
      else
        let name = jsx_name name0 in
        if name = JSString ''style'' then
          (case parseStyleString attr_value of
             Some styleObj \<Rightarrow> (''style={'' @ JSON_stringify styleObj @ ''}'') # buildAttributes rest
           | None \<Rightarrow> buildAttributes rest)
        else if attr_value = [] \<or> JSString attr_value = name \<or> attr_value = ''true'' then
          to_text name # buildAttributes rest
        else if name = JSString ''className'' then
          (''className='' @ quoted attr_value) # buildAttributes rest
        else
          (to_text name @ ''='' @ quoted attr_value) # buildAttributes rest)"

text \<open>
  The escaping of a text node: \<^verbatim>\<open>{\<close> becomes \<^verbatim>\<open>&#123;\<close> and \<^verbatim>\<open>}\<close> becomes
  \<^verbatim>\<open>&#125;\<close>.
\<close>

definition escape_braces :: "string \<Rightarrow> string" where
  "escape_braces s =
     concat (map (\<lambda>c. if c = CHR ''{'' then ''&#123;'' else if c = CHR ''}'' then ''&#125;'' else [c]) s)"

fun elementToJSX :: "options \<Rightarrow> node \<Rightarrow> nat \<Rightarrow> string" where
  "elementToJSX opts (Text s) indent =
     (let text = trim s in if text = [] then [] else escape_braces text)"
| "elementToJSX opts (Comment s) indent =
     (if \<not> preserveComments opts then []
      else repeat_str ''  '' indent @ ''{/* '' @ trim s @ '' */}'')"
| "elementToJSX opts OtherNode indent = []"
| "elementToJSX opts (Element ns t attributes childNodes) indent =
     (let indentStr = repeat_str ''  '' indent;
          tagName = toLowerCase t
      in if tagName \<in> set SKIP_TAGS then []
      else
        let attrs = buildAttributes attributes;
            attrsStr = (if attrs \<noteq> [] then '' '' @ join '' '' attrs else [])
        in if tagName \<in> set SELF_CLOSING_TAGS then indentStr @ ''<'' @ tagName @ attrsStr @ '' />''
        else
          let children = filter (\<lambda>c. c \<noteq> []) (map (\<lambda>child. elementToJSX opts child (indent + 1)) childNodes)
          in if children = [] then
               (let textContent = trim (descendant_text (Element ns t attributes childNodes))
                in if textContent \<noteq> []
                   then indentStr @ ''<'' @ tagName @ attrsStr @ ''>'' @ textContent @ ''</'' @ tagName @ ''>''
                   else indentStr @ ''<'' @ tagName @ attrsStr @ '' />'')
             else if length children = 1 \<and> \<not> str_includes (hd children) [newline] \<and> length (hd children) < 60
               then indentStr @ ''<'' @ tagName @ attrsStr @ ''>'' @ trim (hd children) @ ''</'' @ tagName @ ''>''
             else join [newline]
                    ([indentStr @ ''<'' @ tagName @ attrsStr @ ''>''] @ children @
                     [indentStr @ ''</'' @ tagName @ ''>'']))"

section \<open>Boundary detection\<close>

text \<open>
  An element is referred to by its position in the document (the child indices on the
  way from the document node) together with the node found there. Within one document
  the position determines the node, so two references are the same object
  (\<^verbatim>\<open>b.element === el\<close>) exactly when they are equal.
\<close>

type_synonym elem_ref = "nat list \<times> node"

fun elements_of :: "nat list \<Rightarrow> node \<Rightarrow> elem_ref list"
  and elements_of_list :: "nat list \<Rightarrow> nat \<Rightarrow> node list \<Rightarrow> elem_ref list" where
  "elements_of p (Element ns t attrs cs) = (p, Element ns t attrs cs) # elements_of_list p 0 cs"
| "elements_of p (Text s) = []"
| "elements_of p (Comment s) = []"
| "elements_of p OtherNode = []"
| "elements_of_list p i [] = []"
| "elements_of_list p i (c # cs) = elements_of (p @ [i]) c @ elements_of_list p (Suc i) cs"

text \<open>
  The selectors the converter uses: a type selector, \<^verbatim>\<open>[attr="value"]\<close> and
  \<^verbatim>\<open>*[attr]\<close>. In an HTML document a type selector is compared with the lower-case
  local name of an HTML element and with the name as written of any other element.
\<close>

datatype selector = TagSelector string | AttrEquals string string | HasAttr string

fun matches :: "node \<Rightarrow> selector \<Rightarrow> bool" where
  "matches (Element HTML t attrs cs) (TagSelector s) = (toLowerCase t = s)"
| "matches (Element SVG t attrs cs) (TagSelector s) = (t = s)"
| "matches (Element ns t attrs cs) (AttrEquals a v) = (map_of attrs a = Some v)"
| "matches (Element ns t attrs cs) (HasAttr a) = (map_of attrs a \<noteq> None)"
| "matches _ _ = False"

text \<open>\<^verbatim>\<open>document.querySelectorAll(selector)\<close>: the matching elements in document order.\<close>

definition querySelectorAll :: "document \<Rightarrow> selector \<Rightarrow> elem_ref list" where
  "querySelectorAll doc sel = filter (\<lambda>el. matches (snd el) sel) (elements_of_list [] 0 doc)"

text \<open>
  \<^verbatim>\<open>toPascalCase\<close>. The first replacement removes every run of hyphens, underscores
  and white space and puts the character that follows the run, if any, in upper case;
  the second puts the first character in upper case; the third removes every character
  that is not an ASCII letter or digit.
\<close>

definition is_separator :: "char \<Rightarrow> bool" where
  "is_separator c = (c = CHR ''-'' \<or> c = CHR ''_'' \<or> is_space c)"

function capitalize_after_separators :: "string \<Rightarrow> string" where
  "capitalize_after_separators [] = []"
| "capitalize_after_separators (c # cs) =
     (if is_separator c then
        (case dropWhile is_separator cs of
           [] \<Rightarrow> []
         | d # ds \<Rightarrow> toUpperChar d # capitalize_after_separators ds)
      else c # capitalize_after_separators cs)"
  by pat_completeness auto
termination
proof (relation "measure length")
  show "wf (measure length)"
    by simp
next
  fix c :: char and cs ds :: string and d :: char
  assume "dropWhile is_separator cs = d # ds"
  then have "length (d # ds) \<le> length cs"
    using length_dropWhile_le [of is_separator cs] by simp
  then show "(ds, c # cs) \<in> measure length"
    by simp
next
  fix c :: char and cs :: string
  show "(cs, c # cs) \<in> measure length"
    by simp
qed

fun capitalize_first :: "string \<Rightarrow> string" where
  "capitalize_first [] = []"
| "capitalize_first (c # cs) = (if c = CHR 0x0A \<or> c = CHR 0x0D then c # cs else toUpperChar c # cs)"

definition toPascalCase :: "string \<Rightarrow> string" where
  "toPascalCase str = filter is_alnum (capitalize_first (capitalize_after_separators str))"

definition semanticMap :: "(string \<times> string) list" where
  "semanticMap =
     [(''header'', ''Header''),
      (''nav'', ''Navigation''),
      (''main'', ''MainContent''),
      (''aside'', ''Sidebar''),
      (''footer'', ''Footer''),
      (''article'', ''Article''),
      (''section'', ''Section'')]"

text \<open>
  \<^verbatim>\<open>suggestComponentName\<close> reads and may increment \<^verbatim>\<open>this.componentCounter\<close>; the
  counter is passed in and returned. When \<^verbatim>\<open>semanticMap[tagName]\<close> falls through to
  \<^verbatim>\<open>Object.prototype\<close> the result is the inherited object, kept as the text it prints.
\<close>

definition suggestComponentName :: "node \<Rightarrow> nat \<Rightarrow> string \<times> nat" where
  "suggestComponentName element componentCounter =
     (if element_id element \<noteq> [] then (toPascalCase (element_id element), componentCounter)
      else
        (case element_className element of
           Some (c # cs) \<Rightarrow> (toPascalCase (hd (split_on CHR 0x20 (c # cs))), componentCounter)
         | _ \<Rightarrow>
            (case obj_get semanticMap (lower_tagName element) of
               Some v \<Rightarrow> (to_text v, componentCounter)
             | None \<Rightarrow> (''Component'' @ show_nat (componentCounter + 1), componentCounter + 1))))"

text \<open>
  A boundary. The first pass stores \<^verbatim>\<open>role: el.getAttribute('role')\<close>; the second pass
  stores no \<^verbatim>\<open>role\<close> at all.
\<close>

datatype role_field = RoleAbsent | Role "string option"

record boundary =
  b_type :: string
  b_role :: role_field
  b_id :: string
  b_className :: "string option"
  b_element :: elem_ref
  b_suggestedName :: string

definition semanticSelectors :: "selector list" where
  "semanticSelectors =
     [TagSelector ''header'', TagSelector ''nav'', TagSelector ''main'', TagSelector ''aside'',
      TagSelector ''footer'', TagSelector ''article'', TagSelector ''section'',
      AttrEquals ''role'' ''banner'', AttrEquals ''role'' ''navigation'', AttrEquals ''role'' ''main'',
      AttrEquals ''role'' ''complementary'', AttrEquals ''role'' ''contentinfo'']"

definition semantic_boundary :: "elem_ref \<Rightarrow> nat \<Rightarrow> boundary \<times> nat" where
  "semantic_boundary el componentCounter =
     (let (suggested, counter') = suggestComponentName (snd el) componentCounter
      in (\<lparr>b_type = lower_tagName (snd el),
           b_role = Role (getAttribute (snd el) ''role''),
           b_id = element_id (snd el),
           b_className = element_className (snd el),
           b_element = el,
           b_suggestedName = suggested\<rparr>, counter'))"

fun semantic_elements :: "elem_ref list \<Rightarrow> boundary list \<Rightarrow> nat \<Rightarrow> boundary list \<times> nat" where
  "semantic_elements [] boundaries componentCounter = (boundaries, componentCounter)"
| "semantic_elements (el # els) boundaries componentCounter =
     (let (b, counter') = semantic_boundary el componentCounter
      in semantic_elements els (boundaries @ [b]) counter')"

fun semantic_pass :: "document \<Rightarrow> selector list \<Rightarrow> boundary list \<Rightarrow> nat \<Rightarrow> boundary list \<times> nat" where
  "semantic_pass doc [] boundaries componentCounter = (boundaries, componentCounter)"
| "semantic_pass doc (sel # sels) boundaries componentCounter =
     (let (boundaries', counter') = semantic_elements (querySelectorAll doc sel) boundaries componentCounter
      in semantic_pass doc sels boundaries' counter')"

text \<open>
  A class pattern: a regular expression, of which only \<^verbatim>\<open>pattern.test(className)\<close> is
  used, and a component name.
\<close>

record class_pattern =
  cp_pattern :: "string \<Rightarrow> bool"
  cp_name :: string

text \<open>
  \<^verbatim>\<open>/word/i.test(s)\<close>: \<open>s\<close> contains \<open>word\<close> (given in lower case) in any mix of
  cases. \<^verbatim>\<open>/nav(bar|igation)?/i\<close> accepts the same strings as \<^verbatim>\<open>/nav/i\<close>, since
  the group is optional.
\<close>

definition test_ignore_case :: "string \<Rightarrow> string \<Rightarrow> bool" where
  "test_ignore_case word s = str_includes (toLowerCase s) word"

definition classPatterns :: "class_pattern list" where
  "classPatterns =
     [\<lparr>cp_pattern = test_ignore_case ''header'', cp_name = ''Header''\<rparr>,
      \<lparr>cp_pattern = test_ignore_case ''nav'', cp_name = ''Navigation''\<rparr>,
      \<lparr>cp_pattern = test_ignore_case ''sidebar'', cp_name = ''Sidebar''\<rparr>,
      \<lparr>cp_pattern = test_ignore_case ''footer'', cp_name = ''Footer''\<rparr>,
      \<lparr>cp_pattern = test_ignore_case ''card'', cp_name = ''Card''\<rparr>,
      \<lparr>cp_pattern = test_ignore_case ''modal'', cp_name = ''Modal''\<rparr>,
      \<lparr>cp_pattern = test_ignore_case ''table'', cp_name = ''DataTable''\<rparr>,
      \<lparr>cp_pattern = test_ignore_case ''form'', cp_name = ''Form''\<rparr>,
      \<lparr>cp_pattern = test_ignore_case ''button'', cp_name = ''Button''\<rparr>,
      \<lparr>cp_pattern = test_ignore_case ''panel'', cp_name = ''Panel''\<rparr>,
      \<lparr>cp_pattern = test_ignore_case ''container'', cp_name = ''Container''\<rparr>]"

text \<open>The duplicate test \<^verbatim>\<open>boundaries.some(b => ...)\<close> of the second pass.\<close>

definition boundary_exists :: "boundary list \<Rightarrow> elem_ref \<Rightarrow> string \<Rightarrow> bool" where
  "boundary_exists boundaries el className =
     list_ex (\<lambda>b. b_element b = el \<or>
                   (b_className b = Some className \<and> b_type b = lower_tagName (snd el)))
       boundaries"

definition class_boundary :: "elem_ref \<Rightarrow> string \<Rightarrow> string \<Rightarrow> boundary" where
  "class_boundary el className suggested =
     \<lparr>b_type = lower_tagName (snd el),
      b_role = RoleAbsent,
      b_id = element_id (snd el),
      b_className = Some className,
      b_element = el,
      b_suggestedName = suggested\<rparr>"

text \<open>
  The second pass: for each element with a \<^verbatim>\<open>class\<close> attribute, the first pattern that
  accepts the class string decides (\<^verbatim>\<open>break\<close>), and the boundary is added unless the
  duplicate test finds one.
\<close>

fun class_pass :: "class_pattern list \<Rightarrow> elem_ref list \<Rightarrow> boundary list \<Rightarrow> boundary list" where
  "class_pass pats [] boundaries = boundaries"
| "class_pass pats (el # els) boundaries =
     (case element_className (snd el) of
        None \<Rightarrow> class_pass pats els boundaries
      | Some className \<Rightarrow>
          (case find (\<lambda>p. cp_pattern p className) pats of
             None \<Rightarrow> class_pass pats els boundaries
           | Some p \<Rightarrow>
               if boundary_exists boundaries el className then class_pass pats els boundaries
               else class_pass pats els (boundaries @ [class_boundary el className (cp_name p)])))"

text \<open>
  \<^verbatim>\<open>extractComponentBoundaries\<close>, with the list of class patterns (a local constant of
  the method) as a parameter, and the method itself with the list it uses.
\<close>

definition extractComponentBoundariesWith ::
  "class_pattern list \<Rightarrow> document \<Rightarrow> nat \<Rightarrow> boundary list \<times> nat" where
  "extractComponentBoundariesWith pats doc componentCounter =
     (let (boundaries, counter') = semantic_pass doc semanticSelectors [] componentCounter
      in (class_pass pats (querySelectorAll doc (HasAttr ''class'')) boundaries, counter'))"

definition extractComponentBoundaries :: "document \<Rightarrow> nat \<Rightarrow> boundary list \<times> nat" where
  "extractComponentBoundaries doc componentCounter =
     extractComponentBoundariesWith classPatterns doc componentCounter"

section \<open>Components and the component tree\<close>

definition squote :: char where
  "squote = CHR 0x27"

text \<open>\<^verbatim>\<open>document.body\<close>: the first \<^verbatim>\<open>body\<close> or \<^verbatim>\<open>frameset\<close> child of the \<^verbatim>\<open>html\<close> root element, or null.\<close>

fun is_body :: "node \<Rightarrow> bool" where
  "is_body (Element HTML t attrs cs) = (toLowerCase t = ''body'' \<or> toLowerCase t = ''frameset'')"
| "is_body _ = False"

definition document_body :: "document \<Rightarrow> node option" where
  "document_body doc =
     (case find is_element doc of
        Some (Element HTML t attrs cs) \<Rightarrow> if toLowerCase t = ''html'' then find is_body cs else None
      | _ \<Rightarrow> None)"

definition convertBody :: "options \<Rightarrow> document \<Rightarrow> string" where
  "convertBody opts doc =
     (case document_body doc of None \<Rightarrow> [] | Some body \<Rightarrow> elementToJSX opts body 0)"

record component =
  c_name :: string
  c_filename :: string
  c_content :: string
  c_jsx :: string

definition generateComponent :: "options \<Rightarrow> node \<Rightarrow> string \<Rightarrow> component" where
  "generateComponent opts element componentName =
     (let jsx = elementToJSX opts element 2;
          ext = (if generateTypeScript opts then ''tsx'' else ''jsx'');
          propsType = (if generateTypeScript opts then '': React.FC'' else []);
          content =
            ''import React from '' @ [squote] @ ''react'' @ [squote] @ '';'' @ [newline] @
            [newline] @
            ''export const '' @ componentName @ propsType @ '' = () => {'' @ [newline] @
            ''  return ('' @ [newline] @
            jsx @ [newline] @
            ''  );'' @ [newline] @
            ''};'' @ [newline] @
            [newline] @
            ''export default '' @ componentName @ '';'' @ [newline]
      in \<lparr>c_name = componentName,
          c_filename = componentName @ ''.'' @ ext,
          c_content = content,
          c_jsx = jsx\<rparr>)"

text \<open>
  \<^verbatim>\<open>extractAllComponents\<close>: one component per boundary (every boundary has its
  element), named by the boundary's suggested name.
\<close>

definition extractAllComponents :: "options \<Rightarrow> document \<Rightarrow> nat \<Rightarrow> component list \<times> nat" where
  "extractAllComponents opts doc componentCounter =
     (let (boundaries, counter') = extractComponentBoundaries doc componentCounter
      in (map (\<lambda>b. generateComponent opts (snd (b_element b)) (b_suggestedName b)) boundaries,
          counter'))"

text \<open>
  The tree of \<^verbatim>\<open>getComponentTree\<close>: \<^verbatim>\<open>{tag, id, className, children}\<close>, where
  \<^verbatim>\<open>id\<close> is null for an empty id and \<^verbatim>\<open>className\<close> is null when it is no string.
  The inner function \<^verbatim>\<open>buildTree\<close> also takes a depth, which it never reads.
\<close>

datatype tree = TreeNode (t_tag: string) (t_id: "string option") (t_className: "string option")
  (t_children: "tree list")

fun buildTree :: "node \<Rightarrow> tree option" where
  "buildTree (Element ns t attrs cs) =
     (let tagName = toLowerCase t
      in if tagName \<in> set SKIP_TAGS then None
         else Some (TreeNode tagName
                (if element_id (Element ns t attrs cs) \<noteq> [] then Some (element_id (Element ns t attrs cs)) else None)
                (element_className (Element ns t attrs cs))
                (concat (map (\<lambda>child. case buildTree child of None \<Rightarrow> [] | Some sub \<Rightarrow> [sub])
                           (filter is_element cs)))))"
| "buildTree _ = None"

text \<open>The tags of a tree, the root first and then the subtrees from left to right.\<close>

fun tree_tags :: "tree \<Rightarrow> string list" where
  "tree_tags (TreeNode tg i cn ch) = tg # concat (map tree_tags ch)"

definition getComponentTree :: "document \<Rightarrow> tree option" where
  "getComponentTree doc = (case document_body doc of None \<Rightarrow> None | Some body \<Rightarrow> buildTree body)"

section \<open>Files\<close>

text \<open>
  The file system maps a path to a file with its contents or to a directory. Paths are
  keys as they are written, with \<^verbatim>\<open>/\<close> as the separator; \<^verbatim>\<open>path.join\<close> of a
  directory and a file name is the directory, a separator and the name (Node also
  normalises the result, which is not modelled). Errors are values: the exception's
  message.
\<close>

datatype entry = File string | Dir

type_synonym filesystem = "string \<Rightarrow> entry option"

datatype js_error = Error string

definition existsSync :: "filesystem \<Rightarrow> string \<Rightarrow> bool" where
  "existsSync fs path = (fs path \<noteq> None)"

definition readFileSync :: "filesystem \<Rightarrow> string \<Rightarrow> js_error + string" where
  "readFileSync fs path =
     (case fs path of
        Some (File contents) \<Rightarrow> Inr contents
      | Some Dir \<Rightarrow> Inl (Error ''EISDIR: illegal operation on a directory, read'')
      | None \<Rightarrow> Inl (Error (''ENOENT: no such file or directory, open '' @ [squote] @ path @ [squote])))"

definition path_join :: "string \<Rightarrow> string \<Rightarrow> string" where
  "path_join dir file = dir @ ''/'' @ file"

text \<open>The directory part of a path: the text before the last separator.\<close>

definition dirname :: "string \<Rightarrow> string option" where
  "dirname path =
     (if CHR ''/'' \<in> set path then Some (rev (tl (dropWhile (\<lambda>c. c \<noteq> CHR ''/'') (rev path)))) else None)"

text \<open>
  \<^verbatim>\<open>fs.writeFileSync(path, data)\<close> fails on a directory and when the directory part of
  the path is not an existing directory; otherwise the file holds the new data.
\<close>

definition writeFileSync :: "filesystem \<Rightarrow> string \<Rightarrow> string \<Rightarrow> js_error + filesystem" where
  "writeFileSync fs path data =
     (if fs path = Some Dir then Inl (Error ''EISDIR: illegal operation on a directory, open'')
      else
        (case dirname path of
           None \<Rightarrow> Inr (fs(path \<mapsto> File data))
         | Some d \<Rightarrow>
             if d = [] \<or> fs d = Some Dir then Inr (fs(path \<mapsto> File data))
             else if fs d = None then Inl (Error ''ENOENT: no such file or directory, open'')
             else Inl (Error ''ENOTDIR: not a directory, open'')))"

text \<open>
  \<^verbatim>\<open>fs.mkdirSync(dir, { recursive: true })\<close>: the directory and its missing ancestors
  are created, from the top down; it fails when one of them is a file, and what was
  created before stays.
\<close>

function ancestors :: "string \<Rightarrow> string list" where
  "ancestors path =
     (case dirname path of
        None \<Rightarrow> []
      | Some d \<Rightarrow> if d = [] then [] else ancestors d @ [d])"
  by pat_completeness auto
termination
proof (relation "measure length")
  show "wf (measure length)"
    by simp
next
  fix path d :: string
  assume d: "dirname path = Some d"
  then have slash: "CHR ''/'' \<in> set path"
    by (simp add: dirname_def split: if_splits)
  from d slash have d_eq: "d = rev (tl (dropWhile (\<lambda>c. c \<noteq> CHR ''/'') (rev path)))"
    by (simp add: dirname_def)
  have "dropWhile (\<lambda>c. c \<noteq> CHR ''/'') (rev path) \<noteq> []"
    using slash by (simp add: dropWhile_eq_Nil_conv)
  then have "length (tl (dropWhile (\<lambda>c. c \<noteq> CHR ''/'') (rev path))) <
             length (dropWhile (\<lambda>c. c \<noteq> CHR ''/'') (rev path))"
    by (cases "dropWhile (\<lambda>c. c \<noteq> CHR ''/'') (rev path)") simp_all
  also have "\<dots> \<le> length (rev path)"
    by (rule length_dropWhile_le)
  finally have "length d < length path"
    by (simp only: d_eq length_rev)
  then show "(d, path) \<in> measure length"
    by simp
qed

declare ancestors.simps [simp del]

fun make_dirs :: "filesystem \<Rightarrow> string list \<Rightarrow> filesystem \<times> js_error option" where
  "make_dirs fs [] = (fs, None)"
| "make_dirs fs (d # ds) =
     (case fs d of
        Some (File contents) \<Rightarrow> (fs, Some (Error ''ENOTDIR: not a directory, mkdir''))
      | _ \<Rightarrow> make_dirs (fs(d \<mapsto> Dir)) ds)"

definition mkdirSync_recursive :: "filesystem \<Rightarrow> string \<Rightarrow> filesystem \<times> js_error option" where
  "mkdirSync_recursive fs dir = make_dirs fs (ancestors dir @ [dir])"

section \<open>Conversion of a file and writing of the components\<close>

text \<open>
  \<^verbatim>\<open>new JSDOM(html)\<close> (in \<^verbatim>\<open>loadFromString\<close>) is the library's parser; it is a
  parameter \<open>parseHTML\<close> of the model. \<^verbatim>\<open>loadFromFile\<close> throws when the file does
  not exist. The functions above take what a method reads of its object (the options,
  the document, the counter) as arguments and return the counter the method leaves.
\<close>

definition loadFromFile :: "(string \<Rightarrow> document) \<Rightarrow> filesystem \<Rightarrow> string \<Rightarrow> js_error + document" where
  "loadFromFile parseHTML fs htmlPath =
     (if \<not> existsSync fs htmlPath then Inl (Error (''HTML file not found: '' @ htmlPath))
      else (case readFileSync fs htmlPath of
              Inl e \<Rightarrow> Inl e
            | Inr html \<Rightarrow> Inr (parseHTML html)))"

record conversion =
  fullJSX :: string
  components :: "component list"
  tree :: "tree option"
  boundaries :: "boundary list"

text \<open>
  A converter object has the fields the constructor sets: the options (after the
  defaults are merged in), the document (null until a load), the list of extracted
  components and the counter. The converter objects that exist are kept in a store,
  each at its address, the position in the list; \<^verbatim>\<open>new HTMLToReactConverter(options)\<close>
  puts a new object behind the existing ones, and a method reads and writes the
  fields of the object at the address \<^verbatim>\<open>this\<close>.
\<close>

record converter =
  cv_options :: options
  cv_document :: "document option"
  cv_extractedComponents :: "component list"
  cv_componentCounter :: nat

type_synonym store = "converter list"

definition new_HTMLToReactConverter :: "options \<Rightarrow> converter" where
  "new_HTMLToReactConverter opts =
     \<lparr>cv_options = opts, cv_document = None, cv_extractedComponents = [], cv_componentCounter = 0\<rparr>"

definition set_document :: "store \<Rightarrow> nat \<Rightarrow> document \<Rightarrow> store" where
  "set_document st this doc = st[this := (st ! this)\<lparr>cv_document := Some doc\<rparr>]"

definition set_componentCounter :: "store \<Rightarrow> nat \<Rightarrow> nat \<Rightarrow> store" where
  "set_componentCounter st this n = st[this := (st ! this)\<lparr>cv_componentCounter := n\<rparr>]"

text \<open>
  \<^verbatim>\<open>convertHTMLToReact\<close> creates a converter, loads the file into it and calls, in
  this order, \<^verbatim>\<open>convertBody\<close>, \<^verbatim>\<open>extractAllComponents\<close>, \<^verbatim>\<open>getComponentTree\<close> and
  \<^verbatim>\<open>extractComponentBoundaries\<close> on it. Each method works on what the object holds
  when it is called (\<^verbatim>\<open>this.options\<close>, \<^verbatim>\<open>this.document\<close>,
  \<^verbatim>\<open>this.componentCounter\<close>), and the counter a method leaves is stored back in the
  object. A method called on an object without a document would throw a
  \<^verbatim>\<open>TypeError\<close>. The result comes with the store after the call.
\<close>

definition convertHTMLToReact ::
  "(string \<Rightarrow> document) \<Rightarrow> filesystem \<Rightarrow> store \<Rightarrow> string \<Rightarrow> options \<Rightarrow> (js_error + conversion) \<times> store" where
  "convertHTMLToReact parseHTML fs st htmlPath opts =
     (let converter = length st;
          st0 = st @ [new_HTMLToReactConverter opts]
      in case loadFromFile parseHTML fs htmlPath of
           Inl e \<Rightarrow> (Inl e, st0)
         | Inr loaded \<Rightarrow>
             (let st1 = set_document st0 converter loaded
              in case cv_document (st1 ! converter) of
                   None \<Rightarrow> (Inl (Error ''Cannot read properties of null''), st1)
                 | Some doc \<Rightarrow>
                     (let jsx = convertBody (cv_options (st1 ! converter)) doc;
                          (comps, counter1) =
                             extractAllComponents (cv_options (st1 ! converter)) doc
                               (cv_componentCounter (st1 ! converter));
                          st2 = set_componentCounter st1 converter counter1;
                          tr = getComponentTree doc;
                          (bs, counter2) =
                             extractComponentBoundaries doc (cv_componentCounter (st2 ! converter));
                          st3 = set_componentCounter st2 converter counter2
                      in (Inr \<lparr>fullJSX = jsx, components = comps, tree = tr, boundaries = bs\<rparr>, st3))))"

text \<open>
  \<^verbatim>\<open>writeComponents\<close>. An exception leaves the files written so far in place, so the
  file system is returned in both cases.
\<close>

fun write_each :: "filesystem \<Rightarrow> string \<Rightarrow> component list \<Rightarrow> string list \<Rightarrow> filesystem \<times> (js_error + string list)" where
  "write_each fs outputDir [] written = (fs, Inr written)"
| "write_each fs outputDir (cmp # comps) written =
     (let filePath = path_join outputDir (c_filename cmp)
      in case writeFileSync fs filePath (c_content cmp) of
           Inl e \<Rightarrow> (fs, Inl e)
         | Inr fs' \<Rightarrow> write_each fs' outputDir comps (written @ [filePath]))"

definition writeComponents :: "filesystem \<Rightarrow> component list \<Rightarrow> string \<Rightarrow> filesystem \<times> (js_error + string list)" where
  "writeComponents fs comps outputDir =
     (if \<not> existsSync fs outputDir then
        (case mkdirSync_recursive fs outputDir of
           (fs', Some e) \<Rightarrow> (fs', Inl e)
         | (fs', None) \<Rightarrow> write_each fs' outputDir comps [])
      else write_each fs outputDir comps [])"

text \<open>
  The command line run, from the point where the input path, the output directory and
  the \<^verbatim>\<open>--tree\<close> flag are known. The process starts with no converter object. After
  the conversion (and unless \<^verbatim>\<open>--tree\<close> ends the run) the first ten boundaries are
  printed with \<^verbatim>\<open>boundary.className.split(' ')[0]\<close>; for a boundary whose
  \<^verbatim>\<open>className\<close> is the object of an SVG element this call throws a
  \<^verbatim>\<open>TypeError\<close>, which ends the run with exit code 1 before anything is
  written. The result is the exit code, the file system after the run and the lines
  written to the error stream (the standard output is not modelled).
\<close>

record cli_args =
  inputPath :: "string option"
  outputDir :: "string option"
  showTree :: bool

definition error_line :: "string \<Rightarrow> string" where
  "error_line message = [CHR 0x1B] @ ''[31mError:'' @ [CHR 0x1B] @ ''[0m '' @ message"

definition cli_main :: "(string \<Rightarrow> document) \<Rightarrow> filesystem \<Rightarrow> cli_args \<Rightarrow> nat \<times> filesystem \<times> string list" where
  "cli_main parseHTML fs args =
     (case inputPath args of
        None \<Rightarrow> (1, fs, [error_line ''--input is required''])
      | Some [] \<Rightarrow> (1, fs, [error_line ''--input is required''])
      | Some path \<Rightarrow>
          (case fst (convertHTMLToReact parseHTML fs [] path default_options) of
             Inl (Error message) \<Rightarrow> (1, fs, [error_line message])
           | Inr result \<Rightarrow>
               if showTree args then (0, fs, [])
               else if list_ex (\<lambda>b. b_className b = None) (take 10 (boundaries result))
                 then (1, fs, [error_line ''boundary.className.split is not a function''])
               else
                 (case outputDir args of
                    None \<Rightarrow> (0, fs, [])
                  | Some [] \<Rightarrow> (0, fs, [])
                  | Some dir \<Rightarrow>
                      (case writeComponents fs (components result) dir of
                         (fs', Inl (Error message)) \<Rightarrow> (1, fs', [error_line message])
                       | (fs', Inr written) \<Rightarrow> (0, fs', [])))))"

section \<open>Notions used in the statements about boundaries\<close>

text \<open>
  Where a boundary was found: everything a boundary records except the suggested name.
\<close>

definition boundary_place :: "boundary \<Rightarrow> string \<times> role_field \<times> string \<times> string option \<times> elem_ref" where
  "boundary_place b = (b_type b, b_role b, b_id b, b_className b, b_element b)"

text \<open>A boundary whose type and class string are those of its element.\<close>

definition consistent :: "boundary \<Rightarrow> bool" where
  "consistent b = (b_className b = element_className (snd (b_element b)) \<and>
                   b_type b = lower_tagName (snd (b_element b)))"

section \<open>Notions used in the statements about the structure of the output\<close>

text \<open>
  An element that is converted: its tag is not one of the skipped tags.
\<close>

fun is_kept :: "node \<Rightarrow> bool" where
  "is_kept (Element ns t attrs cs) = (toLowerCase t \<notin> set SKIP_TAGS)"
| "is_kept _ = False"

text \<open>
  A tree has the structure of an element when the tags agree (in lower case), the tree
  holds the element's id and class string, and the subtrees match, one by one and in
  order, the child nodes that are converted elements; the other child nodes (text,
  comments, skipped elements) have no counterpart.
\<close>

fun same_structure :: "tree \<Rightarrow> node \<Rightarrow> bool"
  and same_structures :: "tree list \<Rightarrow> node list \<Rightarrow> bool" where
  "same_structure (TreeNode tg i cn subs) (Element ns t attrs cs) =
     (tg = toLowerCase t \<and>
      i = (if element_id (Element ns t attrs cs) \<noteq> [] then Some (element_id (Element ns t attrs cs)) else None) \<and>
      cn = element_className (Element ns t attrs cs) \<and>
      same_structures subs cs)"
| "same_structure tr (Text s) = False"
| "same_structure tr (Comment s) = False"
| "same_structure tr OtherNode = False"
| "same_structures subs [] = (subs = [])"
| "same_structures subs (c # cs) =
     (if is_kept c
      then (case subs of [] \<Rightarrow> False | sub # rest \<Rightarrow> same_structure sub c \<and> same_structures rest cs)
      else same_structures subs cs)"

text \<open>
  The tags of the converted elements of a document tree in document order: an element
  that is skipped contributes nothing, and neither does anything below it.
\<close>

fun kept_tags :: "node \<Rightarrow> string list" where
  "kept_tags (Element ns t attrs cs) =
     (if toLowerCase t \<in> set SKIP_TAGS then [] else toLowerCase t # concat (map kept_tags cs))"
| "kept_tags (Text s) = []"
| "kept_tags (Comment s) = []"
| "kept_tags OtherNode = []"

text \<open>
  Reading markup back: the names of the opening tags of a text, in order. An opening
  tag is a \<^verbatim>\<open><\<close> followed by a letter, digit or hyphen, and its name is the longest
  run of such characters.
\<close>

definition tag_char :: "char \<Rightarrow> bool" where
  "tag_char c = (is_alnum c \<or> c = CHR ''-'')"

fun jsx_open_tags :: "string \<Rightarrow> string list" where
  "jsx_open_tags [] = []"
| "jsx_open_tags (c # cs) =
     (if c = CHR ''<'' \<and> cs \<noteq> [] \<and> tag_char (hd cs)
      then takeWhile tag_char cs # jsx_open_tags cs
      else jsx_open_tags cs)"

text \<open>
  A document tree whose markup can be read back: tag names are non-empty and consist of
  letters, digits and hyphens; no text, comment or emitted attribute contains \<^verbatim>\<open><\<close>;
  and the void elements (the self-closing tags) have no child nodes, as in every parsed
  HTML document.
\<close>

fun markup_free :: "node \<Rightarrow> bool" where
  "markup_free (Element ns t attrs cs) =
     (t \<noteq> [] \<and> list_all tag_char (toLowerCase t) \<and>
      list_all (\<lambda>s. CHR ''<'' \<notin> set s) (buildAttributes attrs) \<and>
      (if toLowerCase t \<in> set SELF_CLOSING_TAGS then cs = [] else True) \<and>
      list_all markup_free cs)"
| "markup_free (Text s) = (CHR ''<'' \<notin> set s)"
| "markup_free (Comment s) = (CHR ''<'' \<notin> set s)"
| "markup_free OtherNode = True"

section \<open>Evaluation of the model on concrete inputs\<close>

lemmas char_class_defs =
  upper_letters_def lower_letters_def digit_chars_def toLowerChar_def toUpperChar_def
  toLowerCase_def is_lower_def is_digit_def is_alnum_def is_space_def is_separator_def
  dquote_def squote_def backslash_def newline_def

lemmas string_defs =
  trim_def repeat_str_def quoted_def digit_char_def show_nat.simps show_int_def
  escape_braces_def

lemmas object_defs =
  digit_val_def digits_value_def is_array_index_def obj_set_def Object_prototype_def obj_get_def

lemmas style_defs =
  parseStyleString_def formatStyleObject_def hex_digit_def json_escape_def json_string_def
  JSON_stringify_def

lemmas dom_defs =
  element_id_def JSX_ATTR_MAP_def SELF_CLOSING_TAGS_def SKIP_TAGS_def default_options_def
  jsx_name_def querySelectorAll_def document_body_def

lemmas boundary_defs =
  toPascalCase_def semanticMap_def suggestComponentName_def semanticSelectors_def
  semantic_boundary_def test_ignore_case_def classPatterns_def boundary_exists_def
  class_boundary_def extractComponentBoundariesWith_def extractComponentBoundaries_def

lemmas component_defs =
  convertBody_def generateComponent_def extractAllComponents_def getComponentTree_def

lemmas file_defs =
  existsSync_def readFileSync_def path_join_def dirname_def writeFileSync_def
  ancestors.simps mkdirSync_recursive_def loadFromFile_def new_HTMLToReactConverter_def
  set_document_def set_componentCounter_def convertHTMLToReact_def
  writeComponents_def error_line_def cli_main_def

section \<open>Writing the component files\<close>

lemma writeFileSync_Inr:
  "writeFileSync fs path data = Inr fs' \<Longrightarrow> fs' = fs(path \<mapsto> File data)"
  by (auto simp: writeFileSync_def split: if_splits option.splits)

lemma write_each_changes:
  "write_each fs dir comps w = (fs', r) \<Longrightarrow>
     fs' p = fs p \<or>
     (\<exists>c \<in> set comps. p = path_join dir (c_filename c) \<and> fs' p = Some (File (c_content c)))"
proof (induction comps arbitrary: fs w)
  case Nil
  then show ?case by simp
next
  case (Cons c cs)
  show ?case
  proof (cases "writeFileSync fs (path_join dir (c_filename c)) (c_content c)")
    case (Inl e)
    with Cons.prems show ?thesis by simp
  next
    case (Inr fs1)
    then have fs1: "fs1 = fs(path_join dir (c_filename c) \<mapsto> File (c_content c))"
      by (rule writeFileSync_Inr)
    from Cons.prems Inr
    have rest: "write_each fs1 dir cs (w @ [path_join dir (c_filename c)]) = (fs', r)"
      by simp
    from Cons.IH [OF rest]
    consider "fs' p = fs1 p"
      | "\<exists>c' \<in> set cs. p = path_join dir (c_filename c') \<and> fs' p = Some (File (c_content c'))"
      by blast
    then show ?thesis
    proof cases
      case 1
      then show ?thesis
        using fs1 by (cases "p = path_join dir (c_filename c)") auto
    next
      case 2
      then show ?thesis by auto
    qed
  qed
qed

lemma write_each_written:
  "write_each fs dir comps w = (fs', Inr written) \<Longrightarrow>
     written = w @ map (\<lambda>c. path_join dir (c_filename c)) comps"
proof (induction comps arbitrary: fs w)
  case Nil
  then show ?case by simp
next
  case (Cons c cs)
  show ?case
  proof (cases "writeFileSync fs (path_join dir (c_filename c)) (c_content c)")
    case (Inl e)
    with Cons.prems show ?thesis by simp
  next
    case (Inr fs1)
    with Cons.prems
    have "write_each fs1 dir cs (w @ [path_join dir (c_filename c)]) = (fs', Inr written)"
      by simp
    from Cons.IH [OF this] show ?thesis by simp
  qed
qed

lemma write_each_targets:
  "write_each fs dir comps w = (fs', Inr written) \<Longrightarrow> c \<in> set comps \<Longrightarrow>
     \<exists>c' \<in> set comps. c_filename c' = c_filename c \<and>
        fs' (path_join dir (c_filename c)) = Some (File (c_content c'))"
proof (induction comps arbitrary: fs w)
  case Nil
  then show ?case by simp
next
  case (Cons x xs)
  show ?case
  proof (cases "writeFileSync fs (path_join dir (c_filename x)) (c_content x)")
    case (Inl e)
    with Cons.prems show ?thesis by simp
  next
    case (Inr fs1)
    then have fs1: "fs1 = fs(path_join dir (c_filename x) \<mapsto> File (c_content x))"
      by (rule writeFileSync_Inr)
    from Cons.prems Inr
    have rest: "write_each fs1 dir xs (w @ [path_join dir (c_filename x)]) = (fs', Inr written)"
      by simp
    show ?thesis
    proof (cases "c \<in> set xs")
      case True
      from Cons.IH [OF rest True] show ?thesis by auto
    next
      case False
      with Cons.prems have cx: "c = x" by simp
      from write_each_changes [OF rest, of "path_join dir (c_filename c)"]
      consider "fs' (path_join dir (c_filename c)) = fs1 (path_join dir (c_filename c))"
        | "\<exists>c' \<in> set xs. path_join dir (c_filename c) = path_join dir (c_filename c') \<and>
             fs' (path_join dir (c_filename c)) = Some (File (c_content c'))"
        by blast
      then show ?thesis
      proof cases
        case 1
        then show ?thesis using fs1 cx by auto
      next
        case 2
        then show ?thesis by (auto simp: path_join_def)
      qed
    qed
  qed
qed

lemma make_dirs_changes:
  "make_dirs fs ds = (fs', e) \<Longrightarrow> fs' p = fs p \<or> (fs p = None \<and> fs' p = Some Dir)"
proof (induction ds arbitrary: fs)
  case Nil
  then show ?case by simp
next
  case (Cons d ds)
  show ?case
  proof (cases "fs d")
    case None
    with Cons.prems have "make_dirs (fs(d \<mapsto> Dir)) ds = (fs', e)" by simp
    from Cons.IH [OF this] None show ?thesis
      by (cases "p = d") auto
  next
    case (Some en)
    show ?thesis
    proof (cases en)
      case (File contents)
      with Some Cons.prems show ?thesis by simp
    next
      case Dir
      with Some Cons.prems have "make_dirs (fs(d \<mapsto> Dir)) ds = (fs', e)" by simp
      from Cons.IH [OF this] Some Dir show ?thesis
        by (cases "p = d") auto
    qed
  qed
qed

lemma writeComponents_changes:
  assumes "writeComponents fs comps dir = (fs', r)"
  shows "fs' p = fs p \<or>
         (fs p = None \<and> fs' p = Some Dir) \<or>
         (\<exists>c \<in> set comps. p = path_join dir (c_filename c) \<and> fs' p = Some (File (c_content c)))"
proof (cases "existsSync fs dir")
  case True
  with assms have w: "write_each fs dir comps [] = (fs', r)"
    by (simp add: writeComponents_def)
  from write_each_changes [OF w, of p] show ?thesis
    by blast
next
  case False
  obtain fs1 e where mk: "mkdirSync_recursive fs dir = (fs1, e)"
    by (cases "mkdirSync_recursive fs dir")
  then have dirs: "fs1 p = fs p \<or> (fs p = None \<and> fs1 p = Some Dir)"
    unfolding mkdirSync_recursive_def by (rule make_dirs_changes)
  show ?thesis
  proof (cases e)
    case (Some err)
    with assms False mk have "fs' = fs1"
      by (simp add: writeComponents_def)
    with dirs show ?thesis by auto
  next
    case None
    with assms False mk have w: "write_each fs1 dir comps [] = (fs', r)"
      by (simp add: writeComponents_def)
    from write_each_changes [OF w, of p] dirs show ?thesis
      by auto
  qed
qed

lemma writeComponents_success:
  assumes "writeComponents fs comps dir = (fs', Inr written)"
  shows "\<exists>fs1. write_each fs1 dir comps [] = (fs', Inr written)"
proof (cases "existsSync fs dir")
  case True
  with assms show ?thesis
    by (auto simp: writeComponents_def)
next
  case False
  obtain fs1 e where mk: "mkdirSync_recursive fs dir = (fs1, e)"
    by (cases "mkdirSync_recursive fs dir")
  with assms False show ?thesis
    by (cases e) (auto simp: writeComponents_def)
qed

lemma writeComponents_written:
  assumes "writeComponents fs comps dir = (fs', Inr written)"
  shows "written = map (\<lambda>c. path_join dir (c_filename c)) comps"
proof -
  from writeComponents_success [OF assms] obtain fs1
    where "write_each fs1 dir comps [] = (fs', Inr written)" ..
  from write_each_written [OF this] show ?thesis
    by simp
qed

lemma writeComponents_targets:
  assumes "writeComponents fs comps dir = (fs', Inr written)" and "c \<in> set comps"
  shows "\<exists>c' \<in> set comps. c_filename c' = c_filename c \<and>
           fs' (path_join dir (c_filename c)) = Some (File (c_content c'))"
proof -
  from writeComponents_success [OF assms(1)] obtain fs1
    where "write_each fs1 dir comps [] = (fs', Inr written)" ..
  from write_each_targets [OF this assms(2)] show ?thesis .
qed




text \<open>
  Claim C6 says that an index file and a registry file are emitted besides the
  component files. They are not: a run of the command line tool on a page with one
  \<^verbatim>\<open>header\<close> element ends with exit code 0 and leaves exactly the input file, the
  output directory and the one component file \<^verbatim>\<open>out/Header.tsx\<close>.
\<close>

theorem writeComponents_index_registry_counterexample:
  "fst (cli_main (\<lambda>html. [Element HTML ''HTML'' [] [Element HTML ''BODY'' [] [Element HTML ''HEADER'' [] [Text ''Hi'']]]])
      [''page.html'' \<mapsto> File ''<header>Hi</header>'']
      \<lparr>inputPath = Some ''page.html'', outputDir = Some ''out'', showTree = False\<rparr>) = 0 \<and>
   dom (fst (snd (cli_main (\<lambda>html. [Element HTML ''HTML'' [] [Element HTML ''BODY'' [] [Element HTML ''HEADER'' [] [Text ''Hi'']]]])
      [''page.html'' \<mapsto> File ''<header>Hi</header>'']
      \<lparr>inputPath = Some ''page.html'', outputDir = Some ''out'', showTree = False\<rparr>))) =
     {''out/Header.tsx'', ''out'', ''page.html''}"
  by (simp add: Let_def char_class_defs string_defs object_defs dom_defs boundary_defs
      component_defs file_defs)

text \<open>
  Claim C6, as amended. When \<^verbatim>\<open>writeComponents\<close> succeeds it has written one file
  per component and nothing else: the list it returns is the path of each component in
  the output directory, in the order of the components, and the files of the file
  system afterwards are the files that were there before together with those paths.
  No index file and no registry file is emitted.
\<close>

theorem writeComponents_writes_component_files_only:
  assumes "writeComponents fs comps dir = (fs', Inr written)"
  shows "written = map (\<lambda>c. path_join dir (c_filename c)) comps \<and>
         {p. \<exists>data. fs' p = Some (File data)} = {p. \<exists>data. fs p = Some (File data)} \<union> set written"
proof -
  have written: "written = map (\<lambda>c. path_join dir (c_filename c)) comps"
    using assms by (rule writeComponents_written)
  have "(\<exists>data. fs' p = Some (File data)) \<longleftrightarrow> (\<exists>data. fs p = Some (File data)) \<or> p \<in> set written" for p
  proof
    assume "\<exists>data. fs' p = Some (File data)"
    with writeComponents_changes [OF assms, of p] written
    show "(\<exists>data. fs p = Some (File data)) \<or> p \<in> set written"
      by auto
  next
    assume "(\<exists>data. fs p = Some (File data)) \<or> p \<in> set written"
    then show "\<exists>data. fs' p = Some (File data)"
    proof
      assume "\<exists>data. fs p = Some (File data)"
      with writeComponents_changes [OF assms, of p] show ?thesis
        by auto
    next
      assume "p \<in> set written"
      with written obtain c where "c \<in> set comps" and "p = path_join dir (c_filename c)"
        by auto
      with writeComponents_targets [OF assms] show ?thesis
        by blast
    qed
  qed
  then have "{p. \<exists>data. fs' p = Some (File data)} = {p. \<exists>data. fs p = Some (File data)} \<union> set written"
    by blast
  with written show ?thesis
    by simp
qed

theorem writeComponents_writes_component_files_only_witness:
  "writeComponents Map.empty
      [\<lparr>c_name = ''Header'', c_filename = ''Header.tsx'', c_content = ''new'', c_jsx = []\<rparr>] ''out'' =
     ([''out'' \<mapsto> Dir, ''out/Header.tsx'' \<mapsto> File ''new''], Inr [''out/Header.tsx'']) \<and>
   {p. \<exists>data. [''out'' \<mapsto> Dir, ''out/Header.tsx'' \<mapsto> File ''new''] p = Some (File data)} =
     {''out/Header.tsx''}"
proof -
  have run: "writeComponents Map.empty
      [\<lparr>c_name = ''Header'', c_filename = ''Header.tsx'', c_content = ''new'', c_jsx = []\<rparr>] ''out'' =
     ([''out'' \<mapsto> Dir, ''out/Header.tsx'' \<mapsto> File ''new''], Inr [''out/Header.tsx''])"
    by (simp add: Let_def file_defs)
  from writeComponents_writes_component_files_only [OF run]
  have "{p. \<exists>data. [''out'' \<mapsto> Dir, ''out/Header.tsx'' \<mapsto> File ''new''] p = Some (File data)} =
        {p. \<exists>data. (Map.empty :: filesystem) p = Some (File data)} \<union> set [''out/Header.tsx'']"
    by (rule conjunct2)
  then have "{p. \<exists>data. [''out'' \<mapsto> Dir, ''out/Header.tsx'' \<mapsto> File ''new''] p = Some (File data)} =
        {''out/Header.tsx''}"
    by simp
  with run show ?thesis
    by (rule conjI)
qed

section \<open>Style strings\<close>

lemma split_on_no_separator:
  "sep \<notin> set s \<Longrightarrow> split_on sep s = [s]"
  by (induction s) auto

lemma split_on_append_separator:
  "sep \<notin> set s \<Longrightarrow> split_on sep (s @ sep # rest) = s # split_on sep rest"
  by (induction s) auto

lemma split_on_join:
  "segs \<noteq> [] \<Longrightarrow> \<forall>s \<in> set segs. sep \<notin> set s \<Longrightarrow> split_on sep (join [sep] segs) = segs"
proof (induction "[sep]" segs rule: join.induct)
  case 1
  then show ?case by simp
next
  case (2 x)
  then show ?case by (simp add: split_on_no_separator)
next
  case (3 x y ys)
  then show ?case by (simp add: split_on_append_separator)
qed

lemma obj_set_fresh:
  assumes "k \<noteq> ''__proto__''" and "\<not> is_array_index k" and "k \<notin> fst ` set obj"
  shows "obj_set obj k v = obj @ [(k, v)]"
proof -
  from assms(3) have "map_of obj k = None"
    by (simp add: map_of_eq_None_iff)
  with assms(1,2) show ?thesis
    by (simp add: obj_set_def)
qed

lemma parseRules_declarations:
  assumes "\<forall>(p, v) \<in> set ds. CHR 0x3A \<notin> set p \<and> CHR 0x3A \<notin> set v \<and> trim p \<noteq> [] \<and> trim v \<noteq> []"
    and "\<forall>(p, v) \<in> set ds. camelCase (trim p) \<noteq> ''__proto__'' \<and> \<not> is_array_index (camelCase (trim p))"
    and "distinct (map (\<lambda>(p, v). camelCase (trim p)) ds)"
    and "\<forall>(p, v) \<in> set ds. camelCase (trim p) \<notin> fst ` set obj"
  shows "parseRules (map (\<lambda>(p, v). p @ CHR 0x3A # v) ds) obj =
         obj @ map (\<lambda>(p, v). (camelCase (trim p), trim v)) ds"
  using assms
proof (induction ds arbitrary: obj)
  case Nil
  then show ?case by simp
next
  case (Cons d ds)
  obtain p v where d: "d = (p, v)" by (cases d)
  from Cons.prems(1) d have pv: "CHR 0x3A \<notin> set p" "CHR 0x3A \<notin> set v" "trim p \<noteq> []" "trim v \<noteq> []"
    by auto
  then have split: "split_on CHR 0x3A (p @ CHR 0x3A # v) = [p, v]"
    by (simp add: split_on_append_separator split_on_no_separator)
  from Cons.prems(2,4) d have "obj_set obj (camelCase (trim p)) (trim v) = obj @ [(camelCase (trim p), trim v)]"
    by (intro obj_set_fresh) auto
  with split pv have step: "parseRules (map (\<lambda>(p, v). p @ CHR 0x3A # v) (d # ds)) obj =
      parseRules (map (\<lambda>(p, v). p @ CHR 0x3A # v) ds) (obj @ [(camelCase (trim p), trim v)])"
    by (simp add: d)
  have "parseRules (map (\<lambda>(p, v). p @ CHR 0x3A # v) ds) (obj @ [(camelCase (trim p), trim v)]) =
      (obj @ [(camelCase (trim p), trim v)]) @ map (\<lambda>(p, v). (camelCase (trim p), trim v)) ds"
  proof (rule Cons.IH)
    show "\<forall>(p, v) \<in> set ds. CHR 0x3A \<notin> set p \<and> CHR 0x3A \<notin> set v \<and> trim p \<noteq> [] \<and> trim v \<noteq> []"
      using Cons.prems(1) by auto
    show "\<forall>(p, v) \<in> set ds. camelCase (trim p) \<noteq> ''__proto__'' \<and> \<not> is_array_index (camelCase (trim p))"
      using Cons.prems(2) by auto
    show "distinct (map (\<lambda>(p, v). camelCase (trim p)) ds)"
      using Cons.prems(3) by simp
    show "\<forall>(p', v') \<in> set ds. camelCase (trim p') \<notin> fst ` set (obj @ [(camelCase (trim p), trim v)])"
      using Cons.prems(3,4) d by (auto simp: image_iff) 
  qed
  with step show ?case
    by (simp add: d)
qed

lemma join_snoc_empty:
  "segs \<noteq> [] \<Longrightarrow> join sep (segs @ [[]]) = join sep segs @ sep"
  by (induction sep segs rule: join.induct) simp_all

lemma join_nonempty:
  "x \<noteq> [] \<Longrightarrow> join sep (x # xs) \<noteq> []"
  by (cases xs) simp_all

text \<open>
  Claim C8 says that \<^verbatim>\<open>parseStyleString\<close> and \<^verbatim>\<open>formatStyleObject\<close> round-trip,
  with one entry per declaration holding the trimmed value text. They do not:
  \<^verbatim>\<open>formatStyleObject\<close> writes a JSX object literal, \<^verbatim>\<open>{{ color: "red" }}\<close>, and
  \<^verbatim>\<open>parseStyleString\<close> reads that text as one declaration with the property
  \<^verbatim>\<open>{{ color\<close>. Moreover a value is cut at its first colon, and a property declared
  twice gives one entry.
\<close>

theorem style_round_trip_counterexample:
  \<open>formatStyleObject (Some [(''color'', StrV ''red'')]) = Some ''{{ color: "red" }}'' \<and>
   parseStyleString ''{{ color: "red" }}'' = Some [(''{{ color'', ''"red" }}'')] \<and>
   parseStyleString ''background: url(http://a.b/c.png)'' = Some [(''background'', ''url(http'')] \<and>
   parseStyleString ''color: red; color: blue'' = Some [(''color'', ''blue'')]\<close>
  by (simp add: Let_def char_class_defs string_defs object_defs style_defs)

text \<open>
  Claim C8, as amended. Let a style string consist of declarations \<open>p:v\<close> separated by
  semicolons (with or without a semicolon at the end), where no property \<open>p\<close> and no
  value \<open>v\<close> contains a colon or a semicolon or is blank, and where the properties are
  distinct after conversion to camelCase (and none is \<^verbatim>\<open>__proto__\<close> or a decimal
  array index). Then \<^verbatim>\<open>parseStyleString\<close> returns the map with exactly one entry per
  declaration, in order, whose key is the trimmed property in camelCase and whose
  value is the trimmed value text; for the empty string it returns null. In the other
  direction \<^verbatim>\<open>formatStyleObject\<close> renders such a map as the JSX object literal
  \<^verbatim>\<open>{{ key: "value", ... }}\<close>; this text is not an inline style string, and the two
  functions are not inverse to each other.
\<close>

theorem parseStyleString_declarations:
  assumes "ds \<noteq> []"
    and "\<forall>(p, v) \<in> set ds. CHR '';'' \<notin> set (p @ v) \<and> CHR '':'' \<notin> set (p @ v) \<and>
           trim p \<noteq> [] \<and> trim v \<noteq> []"
    and "\<forall>(p, v) \<in> set ds. camelCase (trim p) \<noteq> ''__proto__'' \<and> \<not> is_array_index (camelCase (trim p))"
    and "distinct (map (\<lambda>(p, v). camelCase (trim p)) ds)"
  shows "parseStyleString (join '';'' (map (\<lambda>(p, v). p @ '':'' @ v) ds)) =
           Some (map (\<lambda>(p, v). (camelCase (trim p), trim v)) ds) \<and>
         parseStyleString (join '';'' (map (\<lambda>(p, v). p @ '':'' @ v) ds) @ '';'') =
           Some (map (\<lambda>(p, v). (camelCase (trim p), trim v)) ds) \<and>
         parseStyleString [] = None \<and>
         formatStyleObject (Some (map (\<lambda>(p, v). (camelCase (trim p), StrV (trim v))) ds)) =
           Some (''{{ '' @ join '', '' (map (\<lambda>(p, v). camelCase (trim p) @ '': '' @ quoted (trim v)) ds) @ '' }}'')"
proof -
  let ?rules = "map (\<lambda>(p, v). p @ CHR 0x3A # v) ds"
  let ?entries = "map (\<lambda>(p, v). (camelCase (trim p), trim v)) ds"
  have rules_eq: "map (\<lambda>(p, v). p @ '':'' @ v) ds = ?rules"
    by simp
  have no_semicolon: "\<forall>r \<in> set ?rules. CHR 0x3B \<notin> set r"
    using assms(2) by auto
  have nonempty: "\<forall>r \<in> set ?rules. r \<noteq> []"
    by auto
  have rules_nonempty: "?rules \<noteq> []"
    using assms(1) by simp
  have parsed: "parseRules ?rules [] = [] @ ?entries"
  proof (rule parseRules_declarations)
    show "\<forall>(p, v) \<in> set ds. CHR 0x3A \<notin> set p \<and> CHR 0x3A \<notin> set v \<and> trim p \<noteq> [] \<and> trim v \<noteq> []"
      using assms(2) by auto
    show "\<forall>(p, v) \<in> set ds. camelCase (trim p) \<noteq> ''__proto__'' \<and> \<not> is_array_index (camelCase (trim p))"
      by (rule assms(3))
    show "distinct (map (\<lambda>(p, v). camelCase (trim p)) ds)"
      by (rule assms(4))
    show "\<forall>(p, v) \<in> set ds. camelCase (trim p) \<notin> fst ` set []"
      by simp
  qed
  have entries_nonempty: "?entries \<noteq> []"
    using assms(1) by simp
  have filter_rules: "filter (\<lambda>r. r \<noteq> []) ?rules = ?rules"
    using nonempty by (simp add: filter_id_conv)
  from rules_nonempty nonempty have text_nonempty: "join [CHR 0x3B] ?rules \<noteq> []"
    by (cases ?rules) (simp_all add: join_nonempty)
  have split1: "split_on CHR 0x3B (join [CHR 0x3B] ?rules) = ?rules"
    using rules_nonempty no_semicolon by (rule split_on_join)
  have "split_on CHR 0x3B (join [CHR 0x3B] (?rules @ [[]])) = ?rules @ [[]]"
    using no_semicolon by (intro split_on_join) auto
  then have split2: "split_on CHR 0x3B (join [CHR 0x3B] ?rules @ [CHR 0x3B]) = ?rules @ [[]]"
    using rules_nonempty by (simp add: join_snoc_empty)
  have first: "parseStyleString (join [CHR 0x3B] ?rules) = Some ?entries"
    using text_nonempty split1 filter_rules parsed entries_nonempty
    by (simp add: parseStyleString_def Let_def)
  have second: "parseStyleString (join [CHR 0x3B] ?rules @ [CHR 0x3B]) = Some ?entries"
    using split2 filter_rules parsed entries_nonempty
    by (simp add: parseStyleString_def Let_def)
  have third: "parseStyleString [] = None"
    by (simp add: parseStyleString_def)
  have fourth: "formatStyleObject (Some (map (\<lambda>(p, v). (camelCase (trim p), StrV (trim v))) ds)) =
           Some (''{{ '' @ join '', '' (map (\<lambda>(p, v). camelCase (trim p) @ '': '' @ quoted (trim v)) ds) @ '' }}'')"
    by (simp add: formatStyleObject_def case_prod_unfold comp_def)
  from first second third fourth show ?thesis
    unfolding rules_eq by simp
qed

theorem parseStyleString_declarations_witness:
  \<open>parseStyleString ''color: red; font-size: 12px'' = Some [(''color'', ''red''), (''fontSize'', ''12px'')] \<and>
   parseStyleString ''color: red; font-size: 12px;'' = Some [(''color'', ''red''), (''fontSize'', ''12px'')] \<and>
   formatStyleObject (Some [(''color'', StrV ''red''), (''fontSize'', StrV ''12px'')]) =
     Some ''{{ color: "red", fontSize: "12px" }}''\<close>
proof -
  let ?ds = "[(''color'', '' red''), ('' font-size'', '' 12px'')]"
  have h1: "?ds \<noteq> []"
    by simp
  have h2: "\<forall>(p, v) \<in> set ?ds. CHR '';'' \<notin> set (p @ v) \<and> CHR '':'' \<notin> set (p @ v) \<and>
           trim p \<noteq> [] \<and> trim v \<noteq> []"
    by (simp add: trim_def is_space_def)
  have camel: "camelCase (trim ''color'') = ''color''" "camelCase (trim '' font-size'') = ''fontSize''"
    "trim '' red'' = ''red''" "trim '' 12px'' = ''12px''"
    by (simp_all add: trim_def char_class_defs)
  have h3: "\<forall>(p, v) \<in> set ?ds. camelCase (trim p) \<noteq> ''__proto__'' \<and> \<not> is_array_index (camelCase (trim p))"
    by (simp add: camel is_array_index_def is_digit_def digit_chars_def)
  have h4: "distinct (map (\<lambda>(p, v). camelCase (trim p)) ?ds)"
    by (simp add: camel)
  from parseStyleString_declarations [OF h1 h2 h3 h4] show ?thesis
    by (simp add: camel quoted_def dquote_def)
qed

section \<open>Attributes\<close>












section \<open>Structure of the component tree and of the markup\<close>

lemma jsx_open_tags_no_lt:
  "CHR ''<'' \<notin> set a \<Longrightarrow> jsx_open_tags (a @ b) = jsx_open_tags b"
  by (induction a) auto

lemma jsx_open_tags_none:
  "CHR ''<'' \<notin> set a \<Longrightarrow> jsx_open_tags a = []"
  using jsx_open_tags_no_lt [of a "[]"] by simp

lemma takeWhile_append_stop:
  assumes "b = [] \<or> \<not> P (hd b)"
  shows "takeWhile P (a @ b) = takeWhile P a"
proof (cases "\<forall>x \<in> set a. P x")
  case True
  from assms have "takeWhile P b = []"
    by (cases b) auto
  with True show ?thesis
    by (simp add: takeWhile_eq_all_conv [THEN iffD2])
next
  case False
  then obtain x where "x \<in> set a" and "\<not> P x"
    by blast
  then show ?thesis
    by (rule takeWhile_append1)
qed

lemma jsx_open_tags_append:
  assumes "b = [] \<or> \<not> tag_char (hd b)"
  shows "jsx_open_tags (a @ b) = jsx_open_tags a @ jsx_open_tags b"
proof (induction a)
  case Nil
  show ?case by simp
next
  case (Cons c cs)
  show ?case
  proof (cases cs)
    case Nil
    with assms show ?thesis
      by (cases b) auto
  next
    case (Cons d ds)
    have "takeWhile tag_char (cs @ b) = takeWhile tag_char cs"
      using assms by (rule takeWhile_append_stop)
    with Cons Cons.IH show ?thesis
      by auto
  qed
qed

lemma tag_char_not_lt:
  "tag_char c \<Longrightarrow> c \<noteq> CHR ''<''"
  by (auto simp: tag_char_def is_alnum_def lower_letters_def upper_letters_def digit_chars_def)

lemma not_tag_char [simp]:
  "\<not> tag_char CHR '' ''" "\<not> tag_char CHR ''>''" "\<not> tag_char CHR ''/''" "\<not> tag_char CHR ''<''"
  "\<not> tag_char CHR 0x0A"
  by (auto simp: tag_char_def is_alnum_def lower_letters_def upper_letters_def digit_chars_def)

lemma jsx_open_tags_open:
  assumes "tg \<noteq> []" and "list_all tag_char tg" and "r = [] \<or> \<not> tag_char (hd r)"
  shows "jsx_open_tags (CHR ''<'' # tg @ r) = tg # jsx_open_tags r"
proof -
  from assms(1,2) have hd: "tag_char (hd (tg @ r))"
    by (cases tg) auto
  from assms(2) have all: "\<forall>x \<in> set tg. tag_char x"
    by (simp add: list_all_iff)
  from assms(3) have "takeWhile tag_char r = []"
    by (cases r) auto
  with all have name: "takeWhile tag_char (tg @ r) = tg"
    by (simp add: takeWhile_append2)
  from all have "CHR ''<'' \<notin> set tg"
    using tag_char_not_lt by blast
  then have rest: "jsx_open_tags (tg @ r) = jsx_open_tags r"
    by (rule jsx_open_tags_no_lt)
  from hd name rest assms(1) show ?thesis
    by simp
qed

lemma jsx_open_tags_join:
  "jsx_open_tags (join [CHR 0x0A] xs) = concat (map jsx_open_tags xs)"
proof (induction "[CHR 0x0A]" xs rule: join.induct)
  case 1
  show ?case by simp
next
  case (2 x)
  show ?case by simp
next
  case (3 x y ys)
  have "jsx_open_tags (x @ CHR 0x0A # join [CHR 0x0A] (y # ys)) =
        jsx_open_tags x @ jsx_open_tags (CHR 0x0A # join [CHR 0x0A] (y # ys))"
    by (rule jsx_open_tags_append) simp
  with 3 show ?case
    by simp
qed

lemma is_space_not_lt:
  "is_space c \<Longrightarrow> c \<noteq> CHR ''<''"
  by (auto simp: is_space_def)

lemma is_space_not_tag_char:
  "is_space c \<Longrightarrow> \<not> tag_char c"
  by (auto simp: is_space_def tag_char_def is_alnum_def lower_letters_def upper_letters_def digit_chars_def)

lemma jsx_open_tags_dropWhile:
  "jsx_open_tags (dropWhile is_space s) = jsx_open_tags s"
  by (induction s) (auto dest: is_space_not_lt)

lemma jsx_open_tags_trim:
  "jsx_open_tags (trim s) = jsx_open_tags s"
proof -
  let ?s = "dropWhile is_space s"
  let ?core = "rev (dropWhile is_space (rev ?s))"
  let ?ws = "rev (takeWhile is_space (rev ?s))"
  have split: "?s = ?core @ ?ws"
    by (metis rev_append rev_rev_ident takeWhile_dropWhile_id)
  have ws: "\<forall>c \<in> set ?ws. is_space c"
    by (auto dest: set_takeWhileD)
  then have no_lt: "CHR ''<'' \<notin> set ?ws"
    using is_space_not_lt by blast
  have "?ws = [] \<or> \<not> tag_char (hd ?ws)"
    using ws is_space_not_tag_char by (cases ?ws) auto
  then have "jsx_open_tags (?core @ ?ws) = jsx_open_tags ?core @ jsx_open_tags ?ws"
    by (rule jsx_open_tags_append)
  with split no_lt have "jsx_open_tags ?s = jsx_open_tags ?core"
    by (simp add: jsx_open_tags_none)
  then show ?thesis
    by (simp add: trim_def jsx_open_tags_dropWhile)
qed

lemma trim_subset:
  "set (trim s) \<subseteq> set s"
proof -
  have "set (trim s) \<subseteq> set (dropWhile is_space s)"
    unfolding trim_def using set_dropWhileD by fastforce
  also have "\<dots> \<subseteq> set s"
    using set_dropWhileD by fastforce
  finally show ?thesis .
qed

lemma escape_braces_no_lt:
  "CHR ''<'' \<notin> set s \<Longrightarrow> CHR ''<'' \<notin> set (escape_braces s)"
  by (induction s) (auto simp: escape_braces_def)

lemma repeat_str_no_lt:
  "CHR ''<'' \<notin> set (repeat_str ''  '' n)"
  by (induction n) (auto simp: repeat_str_def)

lemma join_no_lt:
  "\<forall>x \<in> set xs. CHR ''<'' \<notin> set x \<Longrightarrow> CHR ''<'' \<notin> set sep \<Longrightarrow> CHR ''<'' \<notin> set (join sep xs)"
  by (induction sep xs rule: join.induct) auto

lemma descendant_text_no_lt:
  "markup_free n \<Longrightarrow> CHR ''<'' \<notin> set (descendant_text n)"
  by (induction n) (auto simp: list_all_iff)


lemma jsx_open_tags_closing:
  assumes "list_all tag_char tg"
  shows "jsx_open_tags (a @ ''</'' @ tg @ ''>'') = jsx_open_tags a"
proof -
  from assms have "CHR ''<'' \<notin> set tg"
    using tag_char_not_lt by (auto simp: list_all_iff)
  then have "jsx_open_tags (''</'' @ tg @ ''>'') = []"
    by (simp add: jsx_open_tags_none)
  moreover have "jsx_open_tags (a @ ''</'' @ tg @ ''>'') =
      jsx_open_tags a @ jsx_open_tags (''</'' @ tg @ ''>'')"
    by (rule jsx_open_tags_append) simp
  ultimately show ?thesis
    by simp
qed

lemma jsx_open_tags_opening:
  assumes tg: "tg \<noteq> []" "list_all tag_char tg"
    and attrs: "\<forall>x \<in> set attrs. CHR ''<'' \<notin> set x"
    and r: "r = [] \<or> \<not> tag_char (hd r)"
  shows "jsx_open_tags (repeat_str ''  '' indent @ ''<'' @ tg @
           (if attrs \<noteq> [] then '' '' @ join '' '' attrs else []) @ r) = tg # jsx_open_tags r"
proof -
  let ?attrsStr = "if attrs \<noteq> [] then '' '' @ join '' '' attrs else []"
  have no_lt: "CHR ''<'' \<notin> set ?attrsStr"
    using attrs join_no_lt [of attrs "'' ''"] by simp
  have stop: "?attrsStr @ r = [] \<or> \<not> tag_char (hd (?attrsStr @ r))"
    using r by auto
  have "jsx_open_tags (repeat_str ''  '' indent @ ''<'' @ tg @ ?attrsStr @ r) =
        jsx_open_tags (CHR ''<'' # tg @ (?attrsStr @ r))"
    using jsx_open_tags_no_lt [OF repeat_str_no_lt] by simp
  also have "\<dots> = tg # jsx_open_tags (?attrsStr @ r)"
    using tg stop by (rule jsx_open_tags_open)
  also have "jsx_open_tags (?attrsStr @ r) = jsx_open_tags r"
    using no_lt by (rule jsx_open_tags_no_lt)
  finally show ?thesis .
qed

lemma concat_tags_filter:
  "concat (map jsx_open_tags (filter (\<lambda>c. c \<noteq> []) xs)) = concat (map jsx_open_tags xs)"
  by (induction xs) auto

lemma elementToJSX_Element:
  assumes "children = filter (\<lambda>c. c \<noteq> []) (map (\<lambda>child. elementToJSX opts child (indent + 1)) cs)"
    and "attrsStr = (if buildAttributes attrs \<noteq> [] then '' '' @ join '' '' (buildAttributes attrs) else [])"
  shows "elementToJSX opts (Element ns t attrs cs) indent =
     (if toLowerCase t \<in> set SKIP_TAGS then []
      else if toLowerCase t \<in> set SELF_CLOSING_TAGS
        then repeat_str ''  '' indent @ ''<'' @ toLowerCase t @ attrsStr @ '' />''
      else if children = [] then
        (if trim (descendant_text (Element ns t attrs cs)) \<noteq> []
         then repeat_str ''  '' indent @ ''<'' @ toLowerCase t @ attrsStr @ ''>'' @
              trim (descendant_text (Element ns t attrs cs)) @ ''</'' @ toLowerCase t @ ''>''
         else repeat_str ''  '' indent @ ''<'' @ toLowerCase t @ attrsStr @ '' />'')
      else if length children = 1 \<and> \<not> str_includes (hd children) [newline] \<and> length (hd children) < 60
        then repeat_str ''  '' indent @ ''<'' @ toLowerCase t @ attrsStr @ ''>'' @ trim (hd children) @
             ''</'' @ toLowerCase t @ ''>''
      else join [newline]
             ([repeat_str ''  '' indent @ ''<'' @ toLowerCase t @ attrsStr @ ''>''] @ children @
              [repeat_str ''  '' indent @ ''</'' @ toLowerCase t @ ''>'']))"
  unfolding assms by (simp add: Let_def)

lemma elementToJSX_tags:
  "markup_free n \<Longrightarrow> jsx_open_tags (elementToJSX opts n indent) = kept_tags n"
proof (induction n arbitrary: indent)
  case (Text s)
  then have "CHR ''<'' \<notin> set (escape_braces (trim s))"
    using trim_subset [of s] by (intro escape_braces_no_lt) auto
  then show ?case
    by (simp add: Let_def jsx_open_tags_none)
next
  case (Comment s)
  then have "CHR ''<'' \<notin> set (trim s)"
    using trim_subset [of s] by auto
  then have "CHR ''<'' \<notin> set (repeat_str ''  '' indent @ ''{/* '' @ trim s @ '' */}'')"
    using repeat_str_no_lt [of indent] by simp
  then show ?case
    by (simp add: jsx_open_tags_none)
next
  case OtherNode
  show ?case by simp
next
  case (Element ns t attrs cs)
  let ?tag = "toLowerCase t"
  let ?ind = "repeat_str ''  '' indent"
  define children where
    "children = filter (\<lambda>c. c \<noteq> []) (map (\<lambda>child. elementToJSX opts child (indent + 1)) cs)"
  define attrsStr where
    "attrsStr = (if buildAttributes attrs \<noteq> [] then '' '' @ join '' '' (buildAttributes attrs) else [])"
  note out = elementToJSX_Element [OF children_def attrsStr_def, of ns t]
  from Element.prems have tag: "?tag \<noteq> []" "list_all tag_char ?tag"
    and attrs: "\<forall>x \<in> set (buildAttributes attrs). CHR ''<'' \<notin> set x"
    and void: "?tag \<in> set SELF_CLOSING_TAGS \<Longrightarrow> cs = []"
    and kids: "\<forall>c \<in> set cs. markup_free c"
    by (auto simp: list_all_iff toLowerCase_def split: if_splits)
  have open_rule: "jsx_open_tags (?ind @ ''<'' @ ?tag @ attrsStr @ r) = ?tag # jsx_open_tags r"
    if "r = [] \<or> \<not> tag_char (hd r)" for r
    unfolding attrsStr_def using tag attrs that by (rule jsx_open_tags_opening)
  have "map (\<lambda>child. jsx_open_tags (elementToJSX opts child (indent + 1))) cs = map kept_tags cs"
    using Element.IH kids by simp
  then have "map jsx_open_tags (map (\<lambda>child. elementToJSX opts child (indent + 1)) cs) =
      map kept_tags cs"
    by (simp add: comp_def)
  then have "concat (map jsx_open_tags (map (\<lambda>child. elementToJSX opts child (indent + 1)) cs)) =
      concat (map kept_tags cs)"
    by (rule arg_cong)
  then have T: "concat (map jsx_open_tags children) = concat (map kept_tags cs)"
    unfolding children_def by (simp only: concat_tags_filter)
  have kept: "kept_tags (Element ns t attrs cs) = ?tag # concat (map kept_tags cs)"
    if "?tag \<notin> set SKIP_TAGS"
    using that by simp
  show ?case
  proof (cases "?tag \<in> set SKIP_TAGS")
    case True
    then show ?thesis
      by (simp add: Let_def)
  next
    case keep: False
    show ?thesis
    proof (cases "?tag \<in> set SELF_CLOSING_TAGS")
      case True
      have eq: "elementToJSX opts (Element ns t attrs cs) indent = ?ind @ ''<'' @ ?tag @ attrsStr @ '' />''"
        using keep True by (simp only: out if_True if_False simp_thms)
      have "jsx_open_tags (?ind @ ''<'' @ ?tag @ attrsStr @ '' />'') = ?tag # jsx_open_tags '' />''"
        by (rule open_rule) simp
      then show ?thesis
        unfolding eq kept [OF keep] using void [OF True] by simp
    next
      case not_void: False
      show ?thesis
      proof (cases "children = []")
        case True
        with T have none: "concat (map kept_tags cs) = []"
          by simp
        let ?text = "trim (descendant_text (Element ns t attrs cs))"
        have text_clean: "CHR ''<'' \<notin> set ?text"
          using descendant_text_no_lt [OF Element.prems] trim_subset by blast
        have eq: "elementToJSX opts (Element ns t attrs cs) indent =
            (if ?text \<noteq> [] then ?ind @ ''<'' @ ?tag @ attrsStr @ ''>'' @ ?text @ ''</'' @ ?tag @ ''>''
             else ?ind @ ''<'' @ ?tag @ attrsStr @ '' />'')"
          using keep not_void True by (simp only: out if_True if_False simp_thms)
        have a: "jsx_open_tags (?ind @ ''<'' @ ?tag @ attrsStr @ '' />'') = ?tag # jsx_open_tags '' />''"
          by (rule open_rule) simp
        have "jsx_open_tags (?ind @ ''<'' @ ?tag @ attrsStr @ (''>'' @ ?text @ ''</'' @ ?tag @ ''>'')) =
            ?tag # jsx_open_tags (''>'' @ ?text @ ''</'' @ ?tag @ ''>'')"
          by (rule open_rule) simp
        moreover have "jsx_open_tags ((''>'' @ ?text) @ ''</'' @ ?tag @ ''>'') = jsx_open_tags (''>'' @ ?text)"
          using tag(2) by (rule jsx_open_tags_closing)
        moreover have "jsx_open_tags (''>'' @ ?text) = []"
          using text_clean by (simp add: jsx_open_tags_none)
        ultimately have b: "jsx_open_tags (?ind @ ''<'' @ ?tag @ attrsStr @ ''>'' @ ?text @ ''</'' @ ?tag @ ''>'') = [?tag]"
          by simp
        show ?thesis
          unfolding eq kept [OF keep] none using a b by simp
      next
        case some: False
        show ?thesis
        proof (cases "length children = 1 \<and> \<not> str_includes (hd children) [newline] \<and> length (hd children) < 60")
          case True
          then have "length children = Suc 0"
            by simp
          then obtain ch where ch: "children = [ch]"
            by (auto simp: length_Suc_conv)
          with T have one: "jsx_open_tags ch = concat (map kept_tags cs)"
            by simp
          have eq: "elementToJSX opts (Element ns t attrs cs) indent =
              ?ind @ ''<'' @ ?tag @ attrsStr @ ''>'' @ trim (hd children) @ ''</'' @ ?tag @ ''>''"
            using keep not_void some True by (simp only: out if_True if_False simp_thms)
          have "jsx_open_tags (?ind @ ''<'' @ ?tag @ attrsStr @ (''>'' @ trim ch @ ''</'' @ ?tag @ ''>'')) =
              ?tag # jsx_open_tags (''>'' @ trim ch @ ''</'' @ ?tag @ ''>'')"
            by (rule open_rule) simp
          moreover have "jsx_open_tags ((''>'' @ trim ch) @ ''</'' @ ?tag @ ''>'') = jsx_open_tags (''>'' @ trim ch)"
            using tag(2) by (rule jsx_open_tags_closing)
          moreover have "jsx_open_tags (''>'' @ trim ch) = jsx_open_tags ch"
            by (simp add: jsx_open_tags_trim)
          ultimately have "jsx_open_tags (?ind @ ''<'' @ ?tag @ attrsStr @ ''>'' @ trim ch @ ''</'' @ ?tag @ ''>'') =
              ?tag # jsx_open_tags ch"
            by simp
          then show ?thesis
            unfolding eq kept [OF keep] using one ch by simp
        next
          case False
          have eq: "elementToJSX opts (Element ns t attrs cs) indent =
              join [newline] ([?ind @ ''<'' @ ?tag @ attrsStr @ ''>''] @ children @ [?ind @ ''</'' @ ?tag @ ''>''])"
            using keep not_void some False by (simp only: out if_True if_False simp_thms)
          have a: "jsx_open_tags (?ind @ ''<'' @ ?tag @ attrsStr @ ''>'') = ?tag # jsx_open_tags ''>''"
            by (rule open_rule) simp
          have b: "jsx_open_tags (?ind @ ''</'' @ ?tag @ ''>'') = jsx_open_tags ?ind"
            using tag(2) by (rule jsx_open_tags_closing)
          have c: "jsx_open_tags ?ind = []"
            using repeat_str_no_lt by (rule jsx_open_tags_none)
          have "jsx_open_tags (join [newline] ([?ind @ ''<'' @ ?tag @ attrsStr @ ''>''] @ children @
                  [?ind @ ''</'' @ ?tag @ ''>''])) =
              concat (map jsx_open_tags ([?ind @ ''<'' @ ?tag @ attrsStr @ ''>''] @ children @
                  [?ind @ ''</'' @ ?tag @ ''>'']))"
            unfolding newline_def by (rule jsx_open_tags_join)
          also have "\<dots> = ?tag # concat (map jsx_open_tags children)"
            using a b c by simp
          finally show ?thesis
            unfolding eq kept [OF keep] using T by simp
        qed
      qed
    qed
  qed
qed

lemma not_kept:
  "\<not> is_kept c \<Longrightarrow> kept_tags c = [] \<and> (is_element c \<longrightarrow> buildTree c = None)"
  by (cases c) (auto simp: Let_def)

lemma is_kept_element:
  "is_kept c \<Longrightarrow> is_element c"
  by (cases c) auto

lemma buildTree_subtrees:
  assumes "\<And>c. c \<in> set cs \<Longrightarrow> is_kept c \<Longrightarrow>
             \<exists>tr. buildTree c = Some tr \<and> same_structure tr c \<and> tree_tags tr = kept_tags c"
  shows "same_structures
           (concat (map (\<lambda>child. case buildTree child of None \<Rightarrow> [] | Some sub \<Rightarrow> [sub]) (filter is_element cs))) cs \<and>
         concat (map tree_tags
           (concat (map (\<lambda>child. case buildTree child of None \<Rightarrow> [] | Some sub \<Rightarrow> [sub]) (filter is_element cs)))) =
         concat (map kept_tags cs)"
  using assms
proof (induction cs)
  case Nil
  show ?case by simp
next
  case (Cons c cs)
  have rest: "same_structures
           (concat (map (\<lambda>child. case buildTree child of None \<Rightarrow> [] | Some sub \<Rightarrow> [sub]) (filter is_element cs))) cs \<and>
         concat (map tree_tags
           (concat (map (\<lambda>child. case buildTree child of None \<Rightarrow> [] | Some sub \<Rightarrow> [sub]) (filter is_element cs)))) =
         concat (map kept_tags cs)"
    using Cons.prems by (intro Cons.IH) auto
  show ?case
  proof (cases "is_kept c")
    case True
    with Cons.prems [of c] obtain tr where "buildTree c = Some tr" and "same_structure tr c"
      and "tree_tags tr = kept_tags c"
      by auto
    with True rest is_kept_element [OF True] show ?thesis
      by simp
  next
    case False
    with not_kept [OF False] rest show ?thesis
      by (cases "is_element c") simp_all
  qed
qed

lemma buildTree_structure:
  "is_kept n \<Longrightarrow> \<exists>tr. buildTree n = Some tr \<and> same_structure tr n \<and> tree_tags tr = kept_tags n"
proof (induction n)
  case (Element ns t attrs cs)
  from Element.prems have keep: "toLowerCase t \<notin> set SKIP_TAGS"
    by simp
  have "same_structures
           (concat (map (\<lambda>child. case buildTree child of None \<Rightarrow> [] | Some sub \<Rightarrow> [sub]) (filter is_element cs))) cs \<and>
         concat (map tree_tags
           (concat (map (\<lambda>child. case buildTree child of None \<Rightarrow> [] | Some sub \<Rightarrow> [sub]) (filter is_element cs)))) =
         concat (map kept_tags cs)"
    using Element.IH by (rule buildTree_subtrees)
  with keep show ?case
    by (simp add: Let_def)
qed simp_all

lemma document_body_kept:
  assumes "document_body doc = Some body"
  shows "is_kept body"
proof -
  from assms obtain cs where "find is_body cs = Some body"
    by (auto simp: document_body_def split: option.splits node.splits namespace.splits if_splits)
  then have "is_body body"
    by (auto simp: find_Some_iff)
  then show ?thesis
    by (cases body rule: is_body.cases) (auto simp: SKIP_TAGS_def)
qed

text \<open>
  Claim C1 says that re-parsing the rendered markup gives back the tag names, the
  attribute sets and the child ordering of the original document. The conversion is not
  injective, so no parser can do that: a document with a \<^verbatim>\<open>script\<close> element and an
  \<^verbatim>\<open>onclick\<close> attribute and the same document without them are converted to the same
  JSX text and the same component tree.
\<close>

theorem round_trip_counterexample:
  "convertBody default_options
     [Element HTML ''HTML'' [] [Element HTML ''BODY'' []
        [Element HTML ''P'' [] [Text ''hi''],
         Element HTML ''SCRIPT'' [] [Text ''x''],
         Element HTML ''BUTTON'' [(''onclick'', ''go()'')] [Text ''ok'']]]] =
   convertBody default_options
     [Element HTML ''HTML'' [] [Element HTML ''BODY'' []
        [Element HTML ''P'' [] [Text ''hi''],
         Element HTML ''BUTTON'' [] [Text ''ok'']]]] \<and>
   getComponentTree
     [Element HTML ''HTML'' [] [Element HTML ''BODY'' []
        [Element HTML ''P'' [] [Text ''hi''],
         Element HTML ''SCRIPT'' [] [Text ''x''],
         Element HTML ''BUTTON'' [(''onclick'', ''go()'')] [Text ''ok'']]]] =
   getComponentTree
     [Element HTML ''HTML'' [] [Element HTML ''BODY'' []
        [Element HTML ''P'' [] [Text ''hi''],
         Element HTML ''BUTTON'' [] [Text ''ok'']]]] \<and>
   [Element HTML ''HTML'' [] [Element HTML ''BODY'' []
        [Element HTML ''P'' [] [Text ''hi''],
         Element HTML ''SCRIPT'' [] [Text ''x''],
         Element HTML ''BUTTON'' [(''onclick'', ''go()'')] [Text ''ok'']]]] \<noteq>
   [Element HTML ''HTML'' [] [Element HTML ''BODY'' []
        [Element HTML ''P'' [] [Text ''hi''],
         Element HTML ''BUTTON'' [] [Text ''ok'']]]]"
  by (simp add: Let_def char_class_defs string_defs dom_defs component_defs)

text \<open>
  Claim C1, as amended. For every document with a body, the component tree of
  \<^verbatim>\<open>getComponentTree\<close> has the structure of the body with the skipped elements (and
  all non-element nodes) left out: the same tag names in lower case, the ids and class
  strings, and the children in source order. Attributes other than id and class are not
  part of the tree. When, moreover, the body's markup can be read back (plain tag names,
  no \<^verbatim>\<open><\<close> in texts, comments and emitted attributes, void elements empty), the
  opening tags of the JSX text of \<^verbatim>\<open>convertBody\<close>, read in order, are exactly the
  tags of that tree: rendering keeps the converted elements and their order.
\<close>

theorem component_tree_keeps_structure:
  assumes "document_body doc = Some body"
  shows "\<exists>tr. getComponentTree doc = Some tr \<and> same_structure tr body \<and>
           tree_tags tr = kept_tags body \<and>
           (markup_free body \<longrightarrow> jsx_open_tags (convertBody opts doc) = tree_tags tr)"
proof -
  from assms have "is_kept body"
    by (rule document_body_kept)
  then obtain tr where tr: "buildTree body = Some tr" "same_structure tr body"
      "tree_tags tr = kept_tags body"
    using buildTree_structure by blast
  have "jsx_open_tags (convertBody opts doc) = tree_tags tr" if "markup_free body"
    using elementToJSX_tags [OF that, of opts 0] tr(3) assms by (simp add: convertBody_def)
  with tr assms show ?thesis
    by (simp add: getComponentTree_def)
qed

theorem component_tree_keeps_structure_witness:
  "document_body
     [Element HTML ''HTML'' [] [Element HTML ''BODY'' []
        [Element HTML ''P'' [(''class'', ''lead'')] [Text ''hi''],
         Element HTML ''SCRIPT'' [] [Text ''x''],
         Element HTML ''BUTTON'' [(''onclick'', ''go()'')] [Text ''ok'']]]] =
     Some (Element HTML ''BODY'' []
        [Element HTML ''P'' [(''class'', ''lead'')] [Text ''hi''],
         Element HTML ''SCRIPT'' [] [Text ''x''],
         Element HTML ''BUTTON'' [(''onclick'', ''go()'')] [Text ''ok'']]) \<and>
   getComponentTree
     [Element HTML ''HTML'' [] [Element HTML ''BODY'' []
        [Element HTML ''P'' [(''class'', ''lead'')] [Text ''hi''],
         Element HTML ''SCRIPT'' [] [Text ''x''],
         Element HTML ''BUTTON'' [(''onclick'', ''go()'')] [Text ''ok'']]]] =
     Some (TreeNode ''body'' None (Some [])
        [TreeNode ''p'' None (Some ''lead'') [], TreeNode ''button'' None (Some []) []]) \<and>
   jsx_open_tags (convertBody default_options
     [Element HTML ''HTML'' [] [Element HTML ''BODY'' []
        [Element HTML ''P'' [(''class'', ''lead'')] [Text ''hi''],
         Element HTML ''SCRIPT'' [] [Text ''x''],
         Element HTML ''BUTTON'' [(''onclick'', ''go()'')] [Text ''ok'']]]]) =
     [''body'', ''p'', ''button'']"
proof -
  let ?body = "Element HTML ''BODY'' []
        [Element HTML ''P'' [(''class'', ''lead'')] [Text ''hi''],
         Element HTML ''SCRIPT'' [] [Text ''x''],
         Element HTML ''BUTTON'' [(''onclick'', ''go()'')] [Text ''ok'']]"
  let ?doc = "[Element HTML ''HTML'' [] [?body]]"
  have body: "document_body ?doc = Some ?body"
    by (simp add: document_body_def char_class_defs)
  have free: "markup_free ?body"
    by (simp add: Let_def tag_char_def char_class_defs string_defs object_defs dom_defs)
  have tr: "getComponentTree ?doc =
     Some (TreeNode ''body'' None (Some [])
        [TreeNode ''p'' None (Some ''lead'') [], TreeNode ''button'' None (Some []) []])"
    by (simp add: Let_def char_class_defs dom_defs component_defs)
  from component_tree_keeps_structure [OF body, of default_options] free tr
  have "jsx_open_tags (convertBody default_options ?doc) =
      tree_tags (TreeNode ''body'' None (Some [])
        [TreeNode ''p'' None (Some ''lead'') [], TreeNode ''button'' None (Some []) []])"
    by auto
  then have "jsx_open_tags (convertBody default_options ?doc) = [''body'', ''p'', ''button'']"
    by simp
  with body tr show ?thesis
    by blast
qed

section \<open>Skipped tags\<close>

lemma elementToJSX_skipped:
  "toLowerCase t \<in> set SKIP_TAGS \<Longrightarrow> elementToJSX opts (Element ns t attrs cs) indent = []"
  by (simp add: Let_def)

lemma buildTree_children:
  assumes "sub \<in> set (concat (map (\<lambda>child. case buildTree child of None \<Rightarrow> [] | Some s \<Rightarrow> [s]) xs))"
  shows "\<exists>child \<in> set xs. buildTree child = Some sub"
  using assms by (auto split: option.splits)

lemma buildTree_no_skipped_tags:
  "buildTree n = Some tr \<Longrightarrow> tg \<in> set (tree_tags tr) \<Longrightarrow> tg \<notin> set SKIP_TAGS"
proof (induction n arbitrary: tr tg)
  case (Element ns t attrs cs)
  from Element.prems(1) have keep: "toLowerCase t \<notin> set SKIP_TAGS"
    by (simp add: Let_def split: if_splits)
  with Element.prems(1) obtain i cn where
    tr: "tr = TreeNode (toLowerCase t) i cn
           (concat (map (\<lambda>child. case buildTree child of None \<Rightarrow> [] | Some s \<Rightarrow> [s]) (filter is_element cs)))"
    by (auto simp: Let_def)
  from Element.prems(2) tr
  consider "tg = toLowerCase t"
    | sub where "sub \<in> set (concat (map (\<lambda>child. case buildTree child of None \<Rightarrow> [] | Some s \<Rightarrow> [s])
                   (filter is_element cs)))" and "tg \<in> set (tree_tags sub)"
    by auto
  then show ?case
  proof cases
    case 1
    with keep show ?thesis by simp
  next
    case 2
    from buildTree_children [OF 2(1)] obtain child
      where "child \<in> set cs" and "buildTree child = Some sub"
      by auto
    with Element.IH 2(2) show ?thesis
      by blast
  qed
qed simp_all

text \<open>
  Claim C9: no skipped element, and nothing of its subtree, reaches the output. The
  component tree is as the claim says (\<open>buildTree_no_skipped_tags\<close>), and
  \<^verbatim>\<open>elementToJSX\<close> returns the empty string for a skipped element itself
  (\<open>elementToJSX_skipped\<close>). But when every child of an element renders to the empty
  string, \<^verbatim>\<open>elementToJSX\<close> falls back to the element's \<^verbatim>\<open>textContent\<close>, which
  includes the text inside skipped descendants: the text of a \<^verbatim>\<open>script\<close> (or
  \<^verbatim>\<open>style\<close>) element is emitted, unescaped, as the text of its parent. Without the
  skipped child the same parent renders as an empty element.
\<close>

theorem skipped_script_text_is_emitted:
  "elementToJSX default_options
     (Element HTML ''DIV'' [] [Element HTML ''SCRIPT'' [] [Text ''alert(1)'']]) 0 = ''<div>alert(1)</div>'' \<and>
   elementToJSX default_options
     (Element HTML ''DIV'' [] [Element HTML ''STYLE'' [] [Text ''.a{color:red}'']]) 0 = ''<div>.a{color:red}</div>'' \<and>
   elementToJSX default_options (Element HTML ''DIV'' [] []) 0 = ''<div />''"
  by (simp add: Let_def char_class_defs string_defs dom_defs)

section \<open>Suggested component names\<close>

lemma suggestComponentName_id:
  "element_id el \<noteq> [] \<Longrightarrow> suggestComponentName el cc = (toPascalCase (element_id el), cc)"
  by (simp add: suggestComponentName_def)

lemma suggestComponentName_class:
  "element_id el = [] \<Longrightarrow> element_className el = Some (c # cs) \<Longrightarrow>
     suggestComponentName el cc = (toPascalCase (hd (split_on CHR 0x20 (c # cs))), cc)"
  by (simp add: suggestComponentName_def)

lemma suggestComponentName_tag:
  "element_id el = [] \<Longrightarrow> element_className el = None \<or> element_className el = Some [] \<Longrightarrow>
     map_of semanticMap (lower_tagName el) = Some nm \<Longrightarrow> suggestComponentName el cc = (nm, cc)"
  by (auto simp: suggestComponentName_def obj_get_def)

lemma suggestComponentName_counter:
  "element_id el = [] \<Longrightarrow> element_className el = None \<or> element_className el = Some [] \<Longrightarrow>
     map_of semanticMap (lower_tagName el) = None \<Longrightarrow> Object_prototype (lower_tagName el) = None \<Longrightarrow>
     suggestComponentName el cc = (''Component'' @ show_nat (cc + 1), cc + 1)"
  by (auto simp: suggestComponentName_def obj_get_def)

text \<open>
  Claim C5: the name is the id in PascalCase, else the first class name in PascalCase,
  else the semantic default of the tag, else a fresh \<^verbatim>\<open>ComponentN\<close>. The four lemmas
  above are what the code does by that rule. It departs from the claim in two places.
  The first class name is taken as \<^verbatim>\<open>className.split(' ')[0]\<close>, which is the empty
  string when the class attribute starts with a space: a \<^verbatim>\<open>footer\<close> with
  \<^verbatim>\<open>class=" lead"\<close> gets the empty name instead of \<^verbatim>\<open>Lead\<close> (and a class
  attribute whose names are separated by a line break gives both names joined). And
  \<^verbatim>\<open>semanticMap[tagName]\<close> is a read on a plain object, so for the tag
  \<^verbatim>\<open>constructor\<close> it yields the inherited function \<^verbatim>\<open>Object\<close> instead of falling
  through to \<^verbatim>\<open>ComponentN\<close>.
\<close>

theorem suggested_name_of_class_with_leading_space:
  "map b_suggestedName (fst (extractComponentBoundaries
     [Element HTML ''HTML'' [] [Element HTML ''BODY'' []
        [Element HTML ''FOOTER'' [(''class'', '' lead'')] [],
         Element HTML ''NAV'' [(''class'', [CHR ''a'', CHR 0x0A, CHR ''b''])] [],
         Element HTML ''CONSTRUCTOR'' [(''role'', ''banner'')] [],
         Element HTML ''DIV'' [(''role'', ''banner'')] []]]] 0)) =
   [''AB'', [], ''function Object() { [native code] }'', ''Component1'']"
  by (simp add: Let_def char_class_defs string_defs object_defs dom_defs boundary_defs)

section \<open>Monotonicity of boundary detection\<close>

lemma consistent_place:
  "boundary_place b1 = boundary_place b2 \<Longrightarrow> consistent b2 \<Longrightarrow> consistent b1"
  by (simp add: boundary_place_def consistent_def)

lemma semantic_boundary_consistent:
  "semantic_boundary el cc = (b, cc') \<Longrightarrow> consistent b"
  by (auto simp: semantic_boundary_def consistent_def split: prod.splits)

lemma semantic_elements_consistent:
  "semantic_elements els bs cc = (bs', cc') \<Longrightarrow> \<forall>b \<in> set bs. consistent b \<Longrightarrow>
     \<forall>b \<in> set bs'. consistent b"
proof (induction els arbitrary: bs cc)
  case Nil
  then show ?case by simp
next
  case (Cons el els)
  obtain b c1 where sb: "semantic_boundary el cc = (b, c1)"
    by (cases "semantic_boundary el cc")
  with Cons.prems(1) have rest: "semantic_elements els (bs @ [b]) c1 = (bs', cc')"
    by simp
  from sb have "consistent b"
    by (rule semantic_boundary_consistent)
  with Cons.prems(2) have "\<forall>x \<in> set (bs @ [b]). consistent x"
    by simp
  with Cons.IH [OF rest] show ?case
    by blast
qed

lemma semantic_pass_consistent:
  "semantic_pass doc sels bs cc = (bs', cc') \<Longrightarrow> \<forall>b \<in> set bs. consistent b \<Longrightarrow>
     \<forall>b \<in> set bs'. consistent b"
proof (induction sels arbitrary: bs cc)
  case Nil
  then show ?case by simp
next
  case (Cons sel sels)
  obtain bs1 c1 where se: "semantic_elements (querySelectorAll doc sel) bs cc = (bs1, c1)"
    by (cases "semantic_elements (querySelectorAll doc sel) bs cc")
  with Cons.prems(1) have rest: "semantic_pass doc sels bs1 c1 = (bs', cc')"
    by simp
  from semantic_elements_consistent [OF se Cons.prems(2)] Cons.IH [OF rest]
  show ?case
    by blast
qed

lemma class_boundary_fields:
  "b_className (class_boundary el cn nm) = Some cn"
  "b_type (class_boundary el cn nm) = lower_tagName (snd el)"
  "b_element (class_boundary el cn nm) = el"
  "b_suggestedName (class_boundary el cn nm) = nm"
  "boundary_place (class_boundary el cn nm) = boundary_place (class_boundary el cn nm')"
  by (simp_all add: class_boundary_def boundary_place_def)

lemma boundary_exists_iff:
  "boundary_exists bs el cn \<longleftrightarrow>
     (\<exists>b \<in> set bs. b_element b = el \<or> (b_className b = Some cn \<and> b_type b = lower_tagName (snd el)))"
  by (simp add: boundary_exists_def list_ex_iff)

lemma class_pass_monotone:
  fixes g :: "string \<Rightarrow> 'a"
  assumes finds: "\<And>cn p. find (\<lambda>p. cp_pattern p cn) pats = Some p \<Longrightarrow>
            \<exists>p'. find (\<lambda>p. cp_pattern p cn) pats' = Some p' \<and> g (cp_name p') = g (cp_name p)"
    and A: "\<forall>b1 \<in> set bs1. \<exists>b2 \<in> set bs2. boundary_place b1 = boundary_place b2 \<and>
              g (b_suggestedName b1) = g (b_suggestedName b2)"
    and B: "\<forall>b2 \<in> set bs2. \<forall>cn. b_className b2 = Some cn \<longrightarrow>
              find (\<lambda>p. cp_pattern p cn) pats \<noteq> None \<longrightarrow>
              (\<exists>b1 \<in> set bs1. b_className b1 = Some cn \<and> b_type b1 = b_type b2)"
    and C: "\<forall>b \<in> set bs2. consistent b"
  shows "\<forall>b1 \<in> set (class_pass pats els bs1). \<exists>b2 \<in> set (class_pass pats' els bs2).
           boundary_place b1 = boundary_place b2 \<and> g (b_suggestedName b1) = g (b_suggestedName b2)"
  using A B C
proof (induction els arbitrary: bs1 bs2)
  case Nil
  then show ?case by simp
next
  case (Cons el els)
  note A = Cons.prems(1) and B = Cons.prems(2) and C = Cons.prems(3)
  show ?case
  proof (cases "element_className (snd el)")
    case None
    then have "class_pass pats (el # els) bs1 = class_pass pats els bs1"
      and "class_pass pats' (el # els) bs2 = class_pass pats' els bs2"
      by simp_all
    with Cons.IH [OF A B C] show ?thesis
      by simp
  next
    case (Some cn)
    let ?tag = "lower_tagName (snd el)"
    define next2 where "next2 = (case find (\<lambda>p. cp_pattern p cn) pats' of
        None \<Rightarrow> bs2
      | Some p' \<Rightarrow> if boundary_exists bs2 el cn then bs2 else bs2 @ [class_boundary el cn (cp_name p')])"
    have step2: "class_pass pats' (el # els) bs2 = class_pass pats' els next2"
      using Some by (simp add: next2_def split: option.splits)
    have next2_cases: "next2 = bs2 \<or> (\<exists>nm. next2 = bs2 @ [class_boundary el cn nm])"
      by (auto simp: next2_def split: option.splits)
    have C2: "\<forall>b \<in> set next2. consistent b"
      using next2_cases C Some by (auto simp: consistent_def class_boundary_def)
    have A_sub: "\<forall>b1 \<in> set bs1. \<exists>b2 \<in> set next2. boundary_place b1 = boundary_place b2 \<and>
              g (b_suggestedName b1) = g (b_suggestedName b2)"
      using next2_cases A by auto
    show ?thesis
    proof (cases "find (\<lambda>p. cp_pattern p cn) pats")
      case None
      then have step1: "class_pass pats (el # els) bs1 = class_pass pats els bs1"
        using Some by simp
      have B2: "\<forall>b2 \<in> set next2. \<forall>cn'. b_className b2 = Some cn' \<longrightarrow>
              find (\<lambda>p. cp_pattern p cn') pats \<noteq> None \<longrightarrow>
              (\<exists>b1 \<in> set bs1. b_className b1 = Some cn' \<and> b_type b1 = b_type b2)"
        using next2_cases B None by (auto simp: class_boundary_fields)
      from Cons.IH [OF A_sub B2 C2] step1 step2 show ?thesis
        by simp
    next
      case found: (Some p)
      from finds [OF found] obtain p' where
        found': "find (\<lambda>p. cp_pattern p cn) pats' = Some p'" and
        names: "g (cp_name p') = g (cp_name p)"
        by blast
      show ?thesis
      proof (cases "boundary_exists bs1 el cn")
        case True
        then have step1: "class_pass pats (el # els) bs1 = class_pass pats els bs1"
          using Some found by simp
        from True obtain b where b: "b \<in> set bs1"
          and b_match: "b_element b = el \<or> (b_className b = Some cn \<and> b_type b = ?tag)"
          by (auto simp: boundary_exists_iff)
        from A b obtain b2 where "b2 \<in> set bs2" and "boundary_place b = boundary_place b2"
          by blast
        with C have "consistent b"
          using consistent_place by blast
        with b_match Some have b_key: "b_className b = Some cn \<and> b_type b = ?tag"
          by (auto simp: consistent_def)
        have B2: "\<forall>b2 \<in> set next2. \<forall>cn'. b_className b2 = Some cn' \<longrightarrow>
              find (\<lambda>p. cp_pattern p cn') pats \<noteq> None \<longrightarrow>
              (\<exists>b1 \<in> set bs1. b_className b1 = Some cn' \<and> b_type b1 = b_type b2)"
        proof (intro ballI allI impI)
          fix b2 cn'
          assume in2: "b2 \<in> set next2" and cls: "b_className b2 = Some cn'"
            and hit: "find (\<lambda>p. cp_pattern p cn') pats \<noteq> None"
          from next2_cases in2 consider "b2 \<in> set bs2" | nm where "b2 = class_boundary el cn nm"
            by auto
          then show "\<exists>b1 \<in> set bs1. b_className b1 = Some cn' \<and> b_type b1 = b_type b2"
          proof cases
            case 1
            with B cls hit show ?thesis by blast
          next
            case 2
            with cls have "cn' = cn" and "b_type b2 = ?tag"
              by (simp_all add: class_boundary_fields)
            with b b_key show ?thesis by auto
          qed
        qed
        from Cons.IH [OF A_sub B2 C2] step1 step2 show ?thesis
          by simp
      next
        case False
        then have step1: "class_pass pats (el # els) bs1 =
            class_pass pats els (bs1 @ [class_boundary el cn (cp_name p)])"
          using Some found by simp
        have not2: "\<not> boundary_exists bs2 el cn"
        proof
          assume "boundary_exists bs2 el cn"
          then obtain b2 where b2: "b2 \<in> set bs2"
            and m: "b_element b2 = el \<or> (b_className b2 = Some cn \<and> b_type b2 = ?tag)"
            by (auto simp: boundary_exists_iff)
          from C b2 have "consistent b2"
            by blast
          with m Some have key: "b_className b2 = Some cn \<and> b_type b2 = ?tag"
            by (auto simp: consistent_def)
          with B b2 found obtain b1 where "b1 \<in> set bs1" and "b_className b1 = Some cn"
            and "b_type b1 = ?tag"
            by force
          then have "boundary_exists bs1 el cn"
            by (auto simp: boundary_exists_iff)
          with False show False
            by contradiction
        qed
        with found' have next2: "next2 = bs2 @ [class_boundary el cn (cp_name p')]"
          by (simp add: next2_def)
        have A2: "\<forall>b1 \<in> set (bs1 @ [class_boundary el cn (cp_name p)]). \<exists>b2 \<in> set next2.
              boundary_place b1 = boundary_place b2 \<and> g (b_suggestedName b1) = g (b_suggestedName b2)"
          using A names unfolding next2
          by (auto simp: class_boundary_fields(4) intro: class_boundary_fields(5))
        have B2: "\<forall>b2 \<in> set next2. \<forall>cn'. b_className b2 = Some cn' \<longrightarrow>
              find (\<lambda>p. cp_pattern p cn') pats \<noteq> None \<longrightarrow>
              (\<exists>b1 \<in> set (bs1 @ [class_boundary el cn (cp_name p)]).
                 b_className b1 = Some cn' \<and> b_type b1 = b_type b2)"
          using B unfolding next2 by (auto simp: class_boundary_fields)
        from Cons.IH [OF A2 B2 C2] step1 step2 show ?thesis
          by simp
      qed
    qed
  qed
qed

lemma find_append_Some:
  "find P xs = Some x \<Longrightarrow> find P (xs @ ys) = Some x"
  by (induction xs) (auto split: if_splits)

lemma boundary_eqI:
  fixes b1 b2 :: boundary
  assumes "boundary_place b1 = boundary_place b2" and "b_suggestedName b1 = b_suggestedName b2"
  shows "b1 = b2"
  using assms by (cases b1, cases b2) (simp add: boundary_place_def)

lemma extractComponentBoundariesWith_monotone:
  fixes g :: "string \<Rightarrow> 'a"
  assumes finds: "\<And>cn p. find (\<lambda>p. cp_pattern p cn) pats = Some p \<Longrightarrow>
            \<exists>p'. find (\<lambda>p. cp_pattern p cn) pats' = Some p' \<and> g (cp_name p') = g (cp_name p)"
  shows "\<forall>b1 \<in> set (fst (extractComponentBoundariesWith pats doc cc)).
           \<exists>b2 \<in> set (fst (extractComponentBoundariesWith pats' doc cc)).
             boundary_place b1 = boundary_place b2 \<and> g (b_suggestedName b1) = g (b_suggestedName b2)"
proof -
  obtain bs0 c1 where pass1: "semantic_pass doc semanticSelectors [] cc = (bs0, c1)"
    by (cases "semantic_pass doc semanticSelectors [] cc")
  have C: "\<forall>b \<in> set bs0. consistent b"
    using semantic_pass_consistent [OF pass1] by simp
  have A: "\<forall>b1 \<in> set bs0. \<exists>b2 \<in> set bs0. boundary_place b1 = boundary_place b2 \<and>
              g (b_suggestedName b1) = g (b_suggestedName b2)"
    by blast
  have B: "\<forall>b2 \<in> set bs0. \<forall>cn. b_className b2 = Some cn \<longrightarrow>
              find (\<lambda>p. cp_pattern p cn) pats \<noteq> None \<longrightarrow>
              (\<exists>b1 \<in> set bs0. b_className b1 = Some cn \<and> b_type b1 = b_type b2)"
    by blast
  from class_pass_monotone [of pats pats' g bs0 bs0, OF finds A B C] pass1
  show ?thesis
    by (simp add: extractComponentBoundariesWith_def)
qed

lemma extractComponentBoundariesWith_counter:
  "snd (extractComponentBoundariesWith pats doc cc) = snd (extractComponentBoundariesWith pats' doc cc)"
  by (simp add: extractComponentBoundariesWith_def split: prod.splits)

text \<open>
  Claim C3 says that every boundary found under a list of class patterns is still
  among the results under any superset of the list. A boundary carries its suggested
  name, and the name comes from the first pattern that accepts the class string: with
  the pattern \<^verbatim>\<open>/card/i\<close> alone the element \<^verbatim>\<open><div class="card-header">\<close> gives
  the boundary named \<^verbatim>\<open>Card\<close>; with \<^verbatim>\<open>/header/i\<close> put in front of it the same
  element gives a boundary named \<^verbatim>\<open>Header\<close>, and the boundary named \<^verbatim>\<open>Card\<close> is
  not among the results any more.
\<close>

theorem boundary_monotonicity_counterexample:
  "set [\<lparr>cp_pattern = test_ignore_case ''card'', cp_name = ''Card''\<rparr>] \<subseteq>
     set [\<lparr>cp_pattern = test_ignore_case ''header'', cp_name = ''Header''\<rparr>,
          \<lparr>cp_pattern = test_ignore_case ''card'', cp_name = ''Card''\<rparr>] \<and>
   map b_suggestedName (fst (extractComponentBoundariesWith
       [\<lparr>cp_pattern = test_ignore_case ''card'', cp_name = ''Card''\<rparr>]
       [Element HTML ''HTML'' [] [Element HTML ''BODY'' []
          [Element HTML ''DIV'' [(''class'', ''card-header'')] []]]] 0)) = [''Card''] \<and>
   map b_suggestedName (fst (extractComponentBoundariesWith
       [\<lparr>cp_pattern = test_ignore_case ''header'', cp_name = ''Header''\<rparr>,
        \<lparr>cp_pattern = test_ignore_case ''card'', cp_name = ''Card''\<rparr>]
       [Element HTML ''HTML'' [] [Element HTML ''BODY'' []
          [Element HTML ''DIV'' [(''class'', ''card-header'')] []]]] 0)) = [''Header''] \<and>
   \<not> set (fst (extractComponentBoundariesWith
       [\<lparr>cp_pattern = test_ignore_case ''card'', cp_name = ''Card''\<rparr>]
       [Element HTML ''HTML'' [] [Element HTML ''BODY'' []
          [Element HTML ''DIV'' [(''class'', ''card-header'')] []]]] 0)) \<subseteq>
     set (fst (extractComponentBoundariesWith
       [\<lparr>cp_pattern = test_ignore_case ''header'', cp_name = ''Header''\<rparr>,
        \<lparr>cp_pattern = test_ignore_case ''card'', cp_name = ''Card''\<rparr>]
       [Element HTML ''HTML'' [] [Element HTML ''BODY'' []
          [Element HTML ''DIV'' [(''class'', ''card-header'')] []]]] 0))"
  by (simp add: Let_def char_class_defs dom_defs boundary_defs)

text \<open>
  Claim C3, as amended. Enlarging the list of class patterns never loses a place where
  a boundary was found: for pattern lists \<open>pats\<close> and \<open>pats'\<close> such that every pattern
  of \<open>pats\<close> is in \<open>pats'\<close>, every boundary found under \<open>pats\<close> has a boundary under
  \<open>pats'\<close> on the same element with the same type, role, id and class string; its
  suggested name may differ, since the first accepting pattern names it. When the new
  patterns are appended after the old ones, every boundary found under \<open>pats\<close> is
  found unchanged, name included. The counter for generated names ends the same in
  all cases.
\<close>

theorem boundary_places_monotone:
  assumes "set pats \<subseteq> set pats'"
  shows "boundary_place ` set (fst (extractComponentBoundariesWith pats doc cc)) \<subseteq>
           boundary_place ` set (fst (extractComponentBoundariesWith pats' doc cc)) \<and>
         set (fst (extractComponentBoundariesWith pats doc cc)) \<subseteq>
           set (fst (extractComponentBoundariesWith (pats @ extra) doc cc)) \<and>
         snd (extractComponentBoundariesWith pats doc cc) =
           snd (extractComponentBoundariesWith pats' doc cc)"
proof (intro conjI)
  have finds: "\<exists>p'. find (\<lambda>p. cp_pattern p cn) pats' = Some p' \<and>
                 (\<lambda>nm. ()) (cp_name p') = (\<lambda>nm. ()) (cp_name p)"
    if "find (\<lambda>p. cp_pattern p cn) pats = Some p" for cn p
  proof -
    from that have "p \<in> set pats" and "cp_pattern p cn"
      by (auto simp: find_Some_iff)
    with assms have "\<exists>q \<in> set pats'. cp_pattern q cn"
      by blast
    then have "find (\<lambda>p. cp_pattern p cn) pats' \<noteq> None"
      by (auto simp: find_None_iff)
    then show ?thesis
      by auto
  qed
  from extractComponentBoundariesWith_monotone [of pats pats' "\<lambda>nm. ()" doc cc, OF finds]
  show "boundary_place ` set (fst (extractComponentBoundariesWith pats doc cc)) \<subseteq>
        boundary_place ` set (fst (extractComponentBoundariesWith pats' doc cc))"
    by (auto simp: image_iff)
next
  have finds: "\<exists>p'. find (\<lambda>p. cp_pattern p cn) (pats @ extra) = Some p' \<and> cp_name p' = cp_name p"
    if "find (\<lambda>p. cp_pattern p cn) pats = Some p" for cn p
    using find_append_Some [OF that, of extra] by simp
  have "\<forall>b1 \<in> set (fst (extractComponentBoundariesWith pats doc cc)).
           \<exists>b2 \<in> set (fst (extractComponentBoundariesWith (pats @ extra) doc cc)).
             boundary_place b1 = boundary_place b2 \<and> b_suggestedName b1 = b_suggestedName b2"
    by (rule extractComponentBoundariesWith_monotone [of pats "pats @ extra" "\<lambda>nm. nm" doc cc, OF finds])
  then show "set (fst (extractComponentBoundariesWith pats doc cc)) \<subseteq>
        set (fst (extractComponentBoundariesWith (pats @ extra) doc cc))"
    using boundary_eqI by blast
next
  show "snd (extractComponentBoundariesWith pats doc cc) =
        snd (extractComponentBoundariesWith pats' doc cc)"
    by (rule extractComponentBoundariesWith_counter)
qed

theorem boundary_places_monotone_witness:
  "set [\<lparr>cp_pattern = test_ignore_case ''card'', cp_name = ''Card''\<rparr>] \<subseteq>
     set [\<lparr>cp_pattern = test_ignore_case ''header'', cp_name = ''Header''\<rparr>,
          \<lparr>cp_pattern = test_ignore_case ''card'', cp_name = ''Card''\<rparr>] \<and>
   boundary_place ` set (fst (extractComponentBoundariesWith
       [\<lparr>cp_pattern = test_ignore_case ''card'', cp_name = ''Card''\<rparr>]
       [Element HTML ''HTML'' [] [Element HTML ''BODY'' []
          [Element HTML ''DIV'' [(''class'', ''card-header'')] []]]] 0)) \<subseteq>
   boundary_place ` set (fst (extractComponentBoundariesWith
       [\<lparr>cp_pattern = test_ignore_case ''header'', cp_name = ''Header''\<rparr>,
        \<lparr>cp_pattern = test_ignore_case ''card'', cp_name = ''Card''\<rparr>]
       [Element HTML ''HTML'' [] [Element HTML ''BODY'' []
          [Element HTML ''DIV'' [(''class'', ''card-header'')] []]]] 0))"
proof -
  have sub: "set [\<lparr>cp_pattern = test_ignore_case ''card'', cp_name = ''Card''\<rparr>] \<subseteq>
     set [\<lparr>cp_pattern = test_ignore_case ''header'', cp_name = ''Header''\<rparr>,
          \<lparr>cp_pattern = test_ignore_case ''card'', cp_name = ''Card''\<rparr>]"
    by simp
  from boundary_places_monotone [OF sub] sub show ?thesis
    by blast
qed

section \<open>Missing input\<close>

text \<open>
  Claim C7. When the input HTML file is absent, \<^verbatim>\<open>loadFromFile\<close> raises an error
  whose message names the missing file, the command line run ends with exit code 1, and
  the file system after the run is the file system before it: nothing is created or
  modified.
\<close>

theorem missing_input_is_fatal_and_writes_nothing:
  assumes "fs path = None" and "path \<noteq> []"
  shows "loadFromFile parseHTML fs path = Inl (Error (''HTML file not found: '' @ path)) \<and>
         cli_main parseHTML fs \<lparr>inputPath = Some path, outputDir = out, showTree = st\<rparr> =
           (1, fs, [error_line (''HTML file not found: '' @ path)])"
proof -
  have load: "loadFromFile parseHTML fs path = Inl (Error (''HTML file not found: '' @ path))"
    using assms(1) by (simp add: loadFromFile_def existsSync_def)
  then have conv: "fst (convertHTMLToReact parseHTML fs [] path default_options) =
      Inl (Error (''HTML file not found: '' @ path))"
    by (simp add: convertHTMLToReact_def Let_def)
  from assms(2) obtain c cs where "path = c # cs"
    by (cases path) auto
  with conv have "cli_main parseHTML fs \<lparr>inputPath = Some path, outputDir = out, showTree = st\<rparr> =
           (1, fs, [error_line (''HTML file not found: '' @ path)])"
    by (simp add: cli_main_def)
  with load show ?thesis
    by simp
qed

theorem missing_input_is_fatal_and_writes_nothing_witness:
  "(Map.empty :: filesystem) ''page.html'' = None \<and> ''page.html'' \<noteq> [] \<and>
   loadFromFile (\<lambda>html. []) Map.empty ''page.html'' = Inl (Error ''HTML file not found: page.html'') \<and>
   cli_main (\<lambda>html. []) Map.empty
       \<lparr>inputPath = Some ''page.html'', outputDir = Some ''out'', showTree = False\<rparr> =
     (1, Map.empty, [error_line ''HTML file not found: page.html''])"
  using missing_input_is_fatal_and_writes_nothing
    [of Map.empty "''page.html''" "\<lambda>html. []" "Some ''out''" False]
  by simp

section \<open>The boundaries printed by the command line run\<close>

text \<open>
  A page whose boundaries include an SVG element (here an \<^verbatim>\<open>svg\<close> element with
  \<^verbatim>\<open>role="banner"\<close>): with \<^verbatim>\<open>--tree\<close> the run ends before the boundaries are
  printed; without it, printing the boundary throws, the run ends with exit code 1
  and the output directory is never written.
\<close>

lemma cli_main_svg_boundary_ends_run:
  "cli_main
     (\<lambda>html. [Element HTML ''HTML'' [] [Element HTML ''BODY'' []
        [Element HTML ''HEADER'' [] [Element SVG ''svg'' [(''role'', ''banner'')] []]]]])
     [''page.html'' \<mapsto> File ''x'']
     \<lparr>inputPath = Some ''page.html'', outputDir = Some ''out'', showTree = False\<rparr> =
   (1, [''page.html'' \<mapsto> File ''x''], [error_line ''boundary.className.split is not a function''])"
  by (simp add: Let_def char_class_defs string_defs object_defs dom_defs boundary_defs
      component_defs file_defs)

lemma cli_main_svg_boundary_tree:
  "cli_main
     (\<lambda>html. [Element HTML ''HTML'' [] [Element HTML ''BODY'' []
        [Element HTML ''HEADER'' [] [Element SVG ''svg'' [(''role'', ''banner'')] []]]]])
     [''page.html'' \<mapsto> File ''x'']
     \<lparr>inputPath = Some ''page.html'', outputDir = Some ''out'', showTree = True\<rparr> =
   (0, [''page.html'' \<mapsto> File ''x''], [])"
  by (simp add: Let_def char_class_defs string_defs object_defs dom_defs boundary_defs
      component_defs file_defs)

section \<open>Determinism of the conversion\<close>

text \<open>
  What a call of \<^verbatim>\<open>convertHTMLToReact\<close> on an existing file does, whatever converter
  objects exist already: the result is that of the methods run from the counter 0 on
  the parsed file contents, and the store grows by the one converter of this call.
\<close>

lemma convertHTMLToReact_run:
  assumes "fs path = Some (File html)"
  shows "convertHTMLToReact parseHTML fs st path opts =
     (Inr \<lparr>fullJSX = convertBody opts (parseHTML html),
           components = fst (extractAllComponents opts (parseHTML html) 0),
           tree = getComponentTree (parseHTML html),
           boundaries = fst (extractComponentBoundaries (parseHTML html)
                               (snd (extractAllComponents opts (parseHTML html) 0)))\<rparr>,
      st @ [\<lparr>cv_options = opts, cv_document = Some (parseHTML html), cv_extractedComponents = [],
             cv_componentCounter = snd (extractComponentBoundaries (parseHTML html)
                               (snd (extractAllComponents opts (parseHTML html) 0)))\<rparr>])"
proof -
  have load: "loadFromFile parseHTML fs path = Inr (parseHTML html)"
    using assms by (simp add: loadFromFile_def existsSync_def readFileSync_def)
  have doc: "set_document (st @ [c]) (length st) d = st @ [c\<lparr>cv_document := Some d\<rparr>]" for c d
    by (simp add: set_document_def)
  have counter: "set_componentCounter (st @ [c]) (length st) n = st @ [c\<lparr>cv_componentCounter := n\<rparr>]"
    for c n
    by (simp add: set_componentCounter_def)
  show ?thesis
    by (simp add: convertHTMLToReact_def Let_def load doc counter new_HTMLToReactConverter_def
        split: prod.splits)
qed

text \<open>
  Claim C10. Two calls of \<^verbatim>\<open>convertHTMLToReact\<close> that read the same file contents
  with the same options return the same result (JSX text, components, tree and
  boundaries), whatever converter objects exist when each call is made, whatever else
  the file system holds and whatever the file is called; and such a call does return
  a result. Each call constructs a converter of its own: the converters that existed
  before the call are left as they were, exactly one converter is added, and a second
  call made after the first, with the first call's converter still in the store,
  returns what the first returned.
\<close>

theorem convertHTMLToReact_deterministic:
  assumes "fsA pathA = Some (File html)" and "fsB pathB = Some (File html)"
  shows "fst (convertHTMLToReact parseHTML fsA stA pathA opts) =
           fst (convertHTMLToReact parseHTML fsB stB pathB opts) \<and>
         (\<exists>result. fst (convertHTMLToReact parseHTML fsA stA pathA opts) = Inr result) \<and>
         take (length stA) (snd (convertHTMLToReact parseHTML fsA stA pathA opts)) = stA \<and>
         length (snd (convertHTMLToReact parseHTML fsA stA pathA opts)) = Suc (length stA) \<and>
         fst (convertHTMLToReact parseHTML fsA
                (snd (convertHTMLToReact parseHTML fsA stA pathA opts)) pathA opts) =
           fst (convertHTMLToReact parseHTML fsA stA pathA opts)"
proof -
  have run1: "convertHTMLToReact parseHTML fsA st pathA opts =
     (Inr \<lparr>fullJSX = convertBody opts (parseHTML html),
           components = fst (extractAllComponents opts (parseHTML html) 0),
           tree = getComponentTree (parseHTML html),
           boundaries = fst (extractComponentBoundaries (parseHTML html)
                               (snd (extractAllComponents opts (parseHTML html) 0)))\<rparr>,
      st @ [\<lparr>cv_options = opts, cv_document = Some (parseHTML html), cv_extractedComponents = [],
             cv_componentCounter = snd (extractComponentBoundaries (parseHTML html)
                               (snd (extractAllComponents opts (parseHTML html) 0)))\<rparr>])" for st
    using assms(1) by (rule convertHTMLToReact_run)
  have run2: "fst (convertHTMLToReact parseHTML fsB stB pathB opts) =
     Inr \<lparr>fullJSX = convertBody opts (parseHTML html),
           components = fst (extractAllComponents opts (parseHTML html) 0),
           tree = getComponentTree (parseHTML html),
           boundaries = fst (extractComponentBoundaries (parseHTML html)
                               (snd (extractAllComponents opts (parseHTML html) 0)))\<rparr>"
    using assms(2) by (simp add: convertHTMLToReact_run [where html = html])
  show ?thesis
    by (simp add: run1 run2)
qed

theorem convertHTMLToReact_deterministic_witness:
  "[''a.html'' \<mapsto> File ''x''] ''a.html'' = Some (File ''x'') \<and>
   [''b.html'' \<mapsto> File ''x'', ''out'' \<mapsto> Dir] ''b.html'' = Some (File ''x'') \<and>
   fst (convertHTMLToReact
          (\<lambda>html. [Element HTML ''HTML'' [] [Element HTML ''BODY'' []
             [Element HTML ''DIV'' [(''role'', ''banner'')] [Text html]]]])
          [''a.html'' \<mapsto> File ''x''] [] ''a.html'' default_options) =
   fst (convertHTMLToReact
          (\<lambda>html. [Element HTML ''HTML'' [] [Element HTML ''BODY'' []
             [Element HTML ''DIV'' [(''role'', ''banner'')] [Text html]]]])
          [''b.html'' \<mapsto> File ''x'', ''out'' \<mapsto> Dir]
          [\<lparr>cv_options = default_options, cv_document = None, cv_extractedComponents = [],
            cv_componentCounter = 7\<rparr>]
          ''b.html'' default_options) \<and>
   take 1 (snd (convertHTMLToReact
          (\<lambda>html. [Element HTML ''HTML'' [] [Element HTML ''BODY'' []
             [Element HTML ''DIV'' [(''role'', ''banner'')] [Text html]]]])
          [''b.html'' \<mapsto> File ''x'', ''out'' \<mapsto> Dir]
          [\<lparr>cv_options = default_options, cv_document = None, cv_extractedComponents = [],
            cv_componentCounter = 7\<rparr>]
          ''b.html'' default_options)) =
     [\<lparr>cv_options = default_options, cv_document = None, cv_extractedComponents = [],
       cv_componentCounter = 7\<rparr>]"
proof -
  have a: "[''a.html'' \<mapsto> File ''x''] ''a.html'' = Some (File ''x'')"
    by simp
  have b: "[''b.html'' \<mapsto> File ''x'', ''out'' \<mapsto> Dir] ''b.html'' = Some (File ''x'')"
    by simp
  note first = convertHTMLToReact_deterministic [where
      fsA = "[''a.html'' \<mapsto> File ''x'']" and pathA = "''a.html''" and html = "''x''" and
      fsB = "[''b.html'' \<mapsto> File ''x'', ''out'' \<mapsto> Dir]" and pathB = "''b.html''" and
      parseHTML = "\<lambda>html. [Element HTML ''HTML'' [] [Element HTML ''BODY'' []
             [Element HTML ''DIV'' [(''role'', ''banner'')] [Text html]]]]" and
      stA = "[]" and opts = default_options and
      stB = "[\<lparr>cv_options = default_options, cv_document = None, cv_extractedComponents = [],
            cv_componentCounter = 7\<rparr>]", OF a b]
  note second = convertHTMLToReact_deterministic [where
      fsB = "[''a.html'' \<mapsto> File ''x'']" and pathB = "''a.html''" and html = "''x''" and
      fsA = "[''b.html'' \<mapsto> File ''x'', ''out'' \<mapsto> Dir]" and pathA = "''b.html''" and
      parseHTML = "\<lambda>html. [Element HTML ''HTML'' [] [Element HTML ''BODY'' []
             [Element HTML ''DIV'' [(''role'', ''banner'')] [Text html]]]]" and
      stB = "[]" and opts = default_options and
      stA = "[\<lparr>cv_options = default_options, cv_document = None, cv_extractedComponents = [],
            cv_componentCounter = 7\<rparr>]", OF b a]
  from first have one: "fst (convertHTMLToReact
          (\<lambda>html. [Element HTML ''HTML'' [] [Element HTML ''BODY'' []
             [Element HTML ''DIV'' [(''role'', ''banner'')] [Text html]]]])
          [''a.html'' \<mapsto> File ''x''] [] ''a.html'' default_options) =
   fst (convertHTMLToReact
          (\<lambda>html. [Element HTML ''HTML'' [] [Element HTML ''BODY'' []
             [Element HTML ''DIV'' [(''role'', ''banner'')] [Text html]]]])
          [''b.html'' \<mapsto> File ''x'', ''out'' \<mapsto> Dir]
          [\<lparr>cv_options = default_options, cv_document = None, cv_extractedComponents = [],
            cv_componentCounter = 7\<rparr>]
          ''b.html'' default_options)"
    by (rule conjunct1)
  from second have two: "take 1 (snd (convertHTMLToReact
          (\<lambda>html. [Element HTML ''HTML'' [] [Element HTML ''BODY'' []
             [Element HTML ''DIV'' [(''role'', ''banner'')] [Text html]]]])
          [''b.html'' \<mapsto> File ''x'', ''out'' \<mapsto> Dir]
          [\<lparr>cv_options = default_options, cv_document = None, cv_extractedComponents = [],
            cv_componentCounter = 7\<rparr>]
          ''b.html'' default_options)) =
     [\<lparr>cv_options = default_options, cv_document = None, cv_extractedComponents = [],
       cv_componentCounter = 7\<rparr>]"
    by simp
  from a b one two show ?thesis
    by (intro conjI)
qed

text \<open>
  The counter of a converter is what its methods share. Within one conversion it
  carries over from one method call to the next: \<^verbatim>\<open>extractAllComponents\<close> and the
  later \<^verbatim>\<open>extractComponentBoundaries\<close> run on the same converter, so a generated name
  is \<^verbatim>\<open>Component1\<close> in the component list and \<^verbatim>\<open>Component2\<close> in the boundary list
  of the same result, also when a converter with another counter exists already.
\<close>

lemma counter_continues_within_one_conversion:
  "(case fst (convertHTMLToReact
       (\<lambda>html. [Element HTML ''HTML'' [] [Element HTML ''BODY'' []
          [Element HTML ''DIV'' [(''role'', ''banner'')] []]]])
       [''page.html'' \<mapsto> File ''x'']
       [\<lparr>cv_options = default_options, cv_document = None, cv_extractedComponents = [],
         cv_componentCounter = 7\<rparr>]
       ''page.html'' default_options) of
      Inl e \<Rightarrow> False
    | Inr result \<Rightarrow>
        map c_name (components result) = [''Component1''] \<and>
        map b_suggestedName (boundaries result) = [''Component2''])"
proof -
  have "[''page.html'' \<mapsto> File ''x''] ''page.html'' = Some (File ''x'')"
    by simp
  then show ?thesis
    by (simp add: convertHTMLToReact_run [where html = "''x''"] Let_def char_class_defs string_defs object_defs dom_defs boundary_defs
        component_defs)
qed

end
